theory Spec2Isabelle
  imports Main "HOL-Library.Sublist" "HOL-Library.Monad_Syntax"
begin

section \<open>Configuration of 1_fetch_data.js\<close>

text \<open>
  The script fixes its targets in five global constants. The two dates are written in
  the source as \<^verbatim>\<open>Math.floor(new Date('2025-10-01T00:00:00Z').getTime() / 1000)\<close>;
  \<open>getTime\<close> of a UTC midnight is the number of days since 1970-01-01 times
  86400000 milliseconds, and the day number is computed here from the civil date.
\<close>

definition CONTRACT_ID :: string where
  "CONTRACT_ID = ''0.0.9392720''"

definition CONTRACT_EVM_ADDRESS :: string where
  "CONTRACT_EVM_ADDRESS = ''0x00000000000000000000000000000000008f5690''"

definition days_from_civil :: "int \<Rightarrow> int \<Rightarrow> int \<Rightarrow> int" where
  "days_from_civil y m d =
     (let y' = (if m \<le> 2 then y - 1 else y);
          era = y' div 400;
          yoe = y' - era * 400;
          doy = (153 * (if m > 2 then m - 3 else m + 9) + 2) div 5 + d - 1;
          doe = yoe * 365 + yoe div 4 - yoe div 100 + doy
      in era * 146097 + doe - 719468)"

definition getTime :: "int \<Rightarrow> int \<Rightarrow> int \<Rightarrow> int" where
  "getTime y m d = days_from_civil y m d * 86400000"

definition DATE_START :: nat where
  "DATE_START = nat (getTime 2025 10 1 div 1000)"

definition DATE_END :: nat where
  "DATE_END = nat (getTime 2025 12 1 div 1000)"

definition MIRROR_NODE_BASE :: string where
  "MIRROR_NODE_BASE = ''https://mainnet-public.mirrornode.hedera.com/api/v1''"

text \<open>
  A template literal renders a non-negative integer below \<open>10\<^sup>2\<^sup>1\<close> as its decimal
  digits.
\<close>

definition digit :: "nat \<Rightarrow> char" where
  "digit n = ''0123456789'' ! (n mod 10)"

function decimal :: "nat \<Rightarrow> string" where
  "decimal n = (if n < 10 then [digit n] else decimal (n div 10) @ [digit n])"
  by pat_completeness auto
termination
  by (relation "measure id") auto

declare decimal.simps [simp del]

section \<open>The mirror node as seen by one pagination loop\<close>

text \<open>
  A record of the API is opaque to the fetcher: the type variable \<open>'r\<close>.

  The parsed body of a page is an object with a field holding the page's items
  (\<open>results\<close> for contract results, \<open>transactions\<close> for transactions) and a
  field \<open>links\<close> that may hold \<open>next\<close>. A field that is missing or \<open>null\<close> is
  \<open>None\<close>; an items field that is present is an array, and \<open>next\<close>, when present,
  is a string (possibly the empty string, which JavaScript takes as false).
\<close>

record links =
  "next" :: "string option"

record 'r body =
  data_results :: "'r list option"
  data_transactions :: "'r list option"
  data_links :: "links option"

text \<open>
  \<open>await fetch(url)\<close> either throws (a network error, an \<open>Error\<close> object) or
  gives a response:
  \<open>Response ok status parsed\<close> carries \<open>response.ok\<close>, \<open>response.status\<close>
  and what \<open>await response.json()\<close> would give, \<open>None\<close> when it throws (the
  body is not JSON). A body that is JSON but no object, on which reading the items
  field throws, leaves the loop through the same \<open>catch\<close> block, with the same
  effect.
\<close>

datatype 'r reply =
    Throws
  | Response bool nat "'r body option"

text \<open>
  The network is a parameter of each loop: \<open>net k u\<close> is what the \<open>k\<close>-th request
  of the loop (\<open>k\<close> is the loop's \<open>pageCount\<close>, counted from 1) receives when it
  asks for the URL \<open>u\<close>. A server that answers by URL alone ignores \<open>k\<close>; a fixed
  sequence of responses ignores \<open>u\<close>.
\<close>

type_synonym 'r network = "nat \<Rightarrow> string \<Rightarrow> 'r reply"

text \<open>
  What a loop does to the outside world, in order: the requests it issues and the
  pauses it takes (\<open>sleep(ms)\<close>). Console output (the progress line, the
  messages, the next URL shown on every tenth page) is not modelled: it has no effect
  on control flow.
\<close>

datatype event = Request string | Sleep nat

text \<open>The variables of a pagination loop, with the events so far.\<close>

record 'r loop_state =
  allResults :: "'r list"
  url :: "string option"
  pageCount :: nat
  events :: "event list"

text \<open>One pass through a loop body ends at a \<open>break\<close> or at the end of the body.\<close>

datatype 'a flow = Break 'a | Continue 'a

text \<open>\<open>data.links?.next\<close>\<close>

definition links_next :: "'r body \<Rightarrow> string option" where
  "links_next data = (case data_links data of None \<Rightarrow> None | Some l \<Rightarrow> next l)"

section \<open>Phase 1: fetchContractResults\<close>

definition fetchContractResults_url :: string where
  "fetchContractResults_url =
     MIRROR_NODE_BASE @ ''/contracts/'' @ CONTRACT_ID @ ''/results?timestamp=gte:''
       @ decimal DATE_START @ ''&timestamp=lt:'' @ decimal DATE_END @ ''&limit=100&order=asc''"

text \<open>
  The body of \<open>while (url)\<close>, entered with \<open>url = u\<close>. Every exit through
  \<open>break\<close>, also from the \<open>catch\<close> block, leaves \<open>allResults\<close> as it is.

  \<open>allResults.push(...data.results)\<close> passes the items of the page as the arguments
  of one call. An engine accepts only so many arguments in a call; the number depends
  on the engine and on its stack (it is of the order of \<open>10\<^sup>5\<close> in Node) and is the
  parameter \<open>maxArgs\<close>. On a longer page the call throws a \<open>RangeError\<close> before
  anything is pushed; the \<open>catch\<close> block takes it like any other error and leaves
  the loop, so the page is lost and no further page is asked for.
\<close>

definition fetchContractResults_body ::
  "nat \<Rightarrow> 'r network \<Rightarrow> string \<Rightarrow> 'r loop_state \<Rightarrow> 'r loop_state flow" where
  "fetchContractResults_body maxArgs net u st =
     (let st = st\<lparr>pageCount := pageCount st + 1\<rparr>;
          st = st\<lparr>events := events st @ [Request u]\<rparr>
      in case net (pageCount st) u of
           Throws \<Rightarrow> Break st
         | Response ok status parsed \<Rightarrow>
             if \<not> ok then Break st
             else (case parsed of
               None \<Rightarrow> Break st
             | Some data \<Rightarrow>
                 (case data_results data of
                    None \<Rightarrow> Break st
                  | Some page \<Rightarrow>
                      if length page = 0 then Break st
                      else if maxArgs < length page then Break st
                      else
                        let st = st\<lparr>allResults := allResults st @ page\<rparr>;
                            st = (case links_next data of
                                    None \<Rightarrow> st\<lparr>url := None\<rparr>
                                  | Some nextLink \<Rightarrow>
                                      if nextLink = [] then st\<lparr>url := None\<rparr>
                                      else st\<lparr>url := Some
                                        (if prefix ''http'' nextLink then nextLink
                                         else ''https://mainnet-public.mirrornode.hedera.com''
                                                @ nextLink)\<rparr>)
                        in Continue (st\<lparr>events := events st @ [Sleep 200]\<rparr>))))"

text \<open>
  \<open>while (url)\<close>: the loop runs while \<open>url\<close> is neither \<open>null\<close> nor the empty
  string. It has no bound on the number of pages, so it is a partial function:
  \<open>None\<close> is the run that never leaves the loop.
\<close>

partial_function (option) fetchContractResults_loop ::
  "nat \<Rightarrow> 'r network \<Rightarrow> 'r loop_state \<Rightarrow> 'r loop_state option" where
  "fetchContractResults_loop maxArgs net st =
     (case url st of
        None \<Rightarrow> Some st
      | Some u \<Rightarrow>
          if u = [] then Some st
          else (case fetchContractResults_body maxArgs net u st of
                  Break st' \<Rightarrow> Some st'
                | Continue st' \<Rightarrow> fetchContractResults_loop maxArgs net st'))"

definition fetchContractResults_init :: "'r loop_state" where
  "fetchContractResults_init =
     \<lparr>allResults = [], url = Some fetchContractResults_url, pageCount = 0, events = []\<rparr>"

definition fetchContractResults :: "nat \<Rightarrow> 'r network \<Rightarrow> 'r list option" where
  "fetchContractResults maxArgs net =
     map_option allResults (fetchContractResults_loop maxArgs net fetchContractResults_init)"

text \<open>
  The loop cut off after at most \<open>n\<close> passes: \<open>Break st\<close> when it has been left
  with the state \<open>st\<close>, \<open>Continue st\<close> when it is still running. It gives the
  state and the events of every finite prefix of a run, also of a run that never ends.
\<close>

fun fetchContractResults_passes ::
  "nat \<Rightarrow> nat \<Rightarrow> 'r network \<Rightarrow> 'r loop_state \<Rightarrow> 'r loop_state flow" where
  "fetchContractResults_passes maxArgs 0 net st = Continue st"
| "fetchContractResults_passes maxArgs (Suc n) net st =
     (case url st of
        None \<Rightarrow> Break st
      | Some u \<Rightarrow>
          if u = [] then Break st
          else (case fetchContractResults_body maxArgs net u st of
                  Break st' \<Rightarrow> Break st'
                | Continue st' \<Rightarrow> fetchContractResults_passes maxArgs n net st'))"

section \<open>Phase 2: fetchTransactionsFromContract\<close>

definition fetchTransactionsFromContract_url :: string where
  "fetchTransactionsFromContract_url =
     MIRROR_NODE_BASE @ ''/transactions?account.id='' @ CONTRACT_ID @ ''&timestamp=gte:''
       @ decimal DATE_START @ ''&timestamp=lt:'' @ decimal DATE_END @ ''&limit=100&order=asc''"

definition fetchTransactionsFromContract_body ::
  "nat \<Rightarrow> 'r network \<Rightarrow> string \<Rightarrow> 'r loop_state \<Rightarrow> 'r loop_state flow" where
  "fetchTransactionsFromContract_body maxArgs net u st =
     (let st = st\<lparr>pageCount := pageCount st + 1\<rparr>;
          st = st\<lparr>events := events st @ [Request u]\<rparr>
      in case net (pageCount st) u of
           Throws \<Rightarrow> Break st
         | Response ok status parsed \<Rightarrow>
             if \<not> ok then Break st
             else (case parsed of
               None \<Rightarrow> Break st
             | Some data \<Rightarrow>
                 (case data_transactions data of
                    None \<Rightarrow> Break st
                  | Some page \<Rightarrow>
                      if length page = 0 then Break st
                      else if maxArgs < length page then Break st
                      else
                        let st = st\<lparr>allResults := allResults st @ page\<rparr>;
                            st = (case links_next data of
                                    None \<Rightarrow> st\<lparr>url := None\<rparr>
                                  | Some nextLink \<Rightarrow>
                                      if nextLink = [] then st\<lparr>url := None\<rparr>
                                      else st\<lparr>url := Some
                                        (if prefix ''http'' nextLink then nextLink
                                         else ''https://mainnet-public.mirrornode.hedera.com''
                                                @ nextLink)\<rparr>)
                        in Continue (st\<lparr>events := events st @ [Sleep 200]\<rparr>))))"

partial_function (option) fetchTransactionsFromContract_loop ::
  "nat \<Rightarrow> 'r network \<Rightarrow> 'r loop_state \<Rightarrow> 'r loop_state option" where
  "fetchTransactionsFromContract_loop maxArgs net st =
     (case url st of
        None \<Rightarrow> Some st
      | Some u \<Rightarrow>
          if u = [] then Some st
          else (case fetchTransactionsFromContract_body maxArgs net u st of
                  Break st' \<Rightarrow> Some st'
                | Continue st' \<Rightarrow> fetchTransactionsFromContract_loop maxArgs net st'))"

text \<open>The source calls the accumulator of this loop \<open>allTransactions\<close>.\<close>

definition fetchTransactionsFromContract_init :: "'r loop_state" where
  "fetchTransactionsFromContract_init =
     \<lparr>allResults = [], url = Some fetchTransactionsFromContract_url, pageCount = 0,
      events = []\<rparr>"

definition fetchTransactionsFromContract :: "nat \<Rightarrow> 'r network \<Rightarrow> 'r list option" where
  "fetchTransactionsFromContract maxArgs net =
     map_option allResults
       (fetchTransactionsFromContract_loop maxArgs net fetchTransactionsFromContract_init)"

fun fetchTransactionsFromContract_passes ::
  "nat \<Rightarrow> nat \<Rightarrow> 'r network \<Rightarrow> 'r loop_state \<Rightarrow> 'r loop_state flow" where
  "fetchTransactionsFromContract_passes maxArgs 0 net st = Continue st"
| "fetchTransactionsFromContract_passes maxArgs (Suc n) net st =
     (case url st of
        None \<Rightarrow> Break st
      | Some u \<Rightarrow>
          if u = [] then Break st
          else (case fetchTransactionsFromContract_body maxArgs net u st of
                  Break st' \<Rightarrow> Break st'
                | Continue st' \<Rightarrow> fetchTransactionsFromContract_passes maxArgs n net st'))"

section \<open>main: aggregation and the snapshot file\<close>

record metadata =
  contractId :: string
  contractEvmAddress :: string
  period :: string
  startTimestamp :: nat
  endTimestamp :: nat
  fetchedAt :: string
  totalContractResults :: nat
  totalTransactions :: nat

record 'r snapshot =
  metadata :: metadata
  contractResults :: "'r list"
  transactions :: "'r list"

text \<open>
  How the process ends: \<open>Saved filename allData\<close> when the snapshot has been written
  and \<open>main\<close> returns, \<open>Exit1\<close> when the \<open>catch\<close> block of \<open>main\<close> calls
  \<open>process.exit(1)\<close>.
\<close>

datatype 'r outcome = Saved string "'r snapshot" | Exit1

text \<open>
  \<open>main\<close> reads the clock once (\<open>new Date().toISOString()\<close>, the parameter
  \<open>now\<close>) and writes one file; \<open>writeFileSync filename allData\<close> tells whether
  writing succeeds or throws. The two loops are run one after the other, each against
  the network as it answers that loop, on the same engine (\<open>maxArgs\<close>). Neither
  loop throws, so the only way into the \<open>catch\<close> block is a failing write. The serialisation to JSON text and the file
  size printed afterwards are not modelled.
\<close>

definition main ::
  "nat \<Rightarrow> 'r network \<Rightarrow> 'r network \<Rightarrow> string
     \<Rightarrow> (string \<Rightarrow> 'r snapshot \<Rightarrow> bool) \<Rightarrow> 'r outcome option" where
  "main maxArgs net_in net_out now writeFileSync =
     do {
       contractResults' \<leftarrow> fetchContractResults maxArgs net_in;
       transactions' \<leftarrow> fetchTransactionsFromContract maxArgs net_out;
       let allData =
         \<lparr>metadata =
            \<lparr>contractId = CONTRACT_ID,
             contractEvmAddress = CONTRACT_EVM_ADDRESS,
             period = ''2025'',
             startTimestamp = DATE_START,
             endTimestamp = DATE_END,
             fetchedAt = now,
             totalContractResults = length contractResults',
             totalTransactions = length transactions'\<rparr>,
          contractResults = contractResults',
          transactions = transactions'\<rparr>;
       let filename = ''dexpay_contract_calls_2025.json'';
       if writeFileSync filename allData then Some (Saved filename allData) else Some Exit1
     }"

section \<open>Networks and runs the properties speak about\<close>

subsection \<open>Renaming the items field\<close>

text \<open>
  The same body with the names of its two items fields exchanged: what is served as
  \<open>results\<close> is served as \<open>transactions\<close> and conversely.
\<close>

definition rename_fields :: "'r body \<Rightarrow> 'r body" where
  "rename_fields data =
     data\<lparr>data_results := data_transactions data, data_transactions := data_results data\<rparr>"

definition rename_reply :: "'r reply \<Rightarrow> 'r reply" where
  "rename_reply r =
     (case r of Throws \<Rightarrow> Throws
      | Response ok status parsed \<Rightarrow> Response ok status (map_option rename_fields parsed))"

definition renamed :: "'r network \<Rightarrow> 'r network" where
  "renamed net = (\<lambda>k u. rename_reply (net k u))"

text \<open>
  Two loop states that have collected the same records after the same number of pages
  and agree on whether, and after the first page where, the loop goes on.
\<close>

definition same_progress :: "'r loop_state \<Rightarrow> 'r loop_state \<Rightarrow> bool" where
  "same_progress st st' \<longleftrightarrow>
     allResults st = allResults st' \<and> pageCount st = pageCount st' \<and>
     (url st = url st' \<or> (url st \<notin> {None, Some []} \<and> url st' \<notin> {None, Some []}))"

subsection \<open>Kinds of replies\<close>

text \<open>
  The absolute URL that a loop makes of a next link. The second argument of the
  predicates below, \<open>field\<close>, is the items field the loop reads: \<open>data_results\<close>
  or \<open>data_transactions\<close>.
\<close>

definition absolute :: "string \<Rightarrow> string" where
  "absolute nextLink =
     (if prefix ''http'' nextLink then nextLink
      else ''https://mainnet-public.mirrornode.hedera.com'' @ nextLink)"

text \<open>
  \<open>succeeds field r page nxt\<close>: the reply \<open>r\<close> is an HTTP success whose body
  parses and holds the non-empty array \<open>page\<close>, with the next link \<open>nxt\<close>
  (\<open>None\<close> when the body has none, or an empty one).
\<close>

fun succeeds ::
  "('r body \<Rightarrow> 'r list option) \<Rightarrow> 'r reply \<Rightarrow> 'r list \<Rightarrow> string option \<Rightarrow> bool" where
  "succeeds field (Response ok status (Some data)) page nxt \<longleftrightarrow>
     ok \<and> field data = Some page \<and> page \<noteq> [] \<and>
     (case links_next data of None \<Rightarrow> None | Some l \<Rightarrow> if l = [] then None else Some l) = nxt"
| "succeeds field (Response ok status None) page nxt \<longleftrightarrow> False"
| "succeeds field Throws page nxt \<longleftrightarrow> False"

text \<open>
  A failed request: \<open>fetch\<close> throws, the status is not a success, or the body of a
  success does not parse.
\<close>

fun fails :: "'r reply \<Rightarrow> bool" where
  "fails Throws \<longleftrightarrow> True"
| "fails (Response ok status parsed) \<longleftrightarrow> \<not> ok \<or> parsed = None"

text \<open>A success whose items array is empty or absent.\<close>

fun empty_page :: "('r body \<Rightarrow> 'r list option) \<Rightarrow> 'r reply \<Rightarrow> bool" where
  "empty_page field (Response ok status (Some data)) \<longleftrightarrow>
     ok \<and> (field data = None \<or> field data = Some [])"
| "empty_page field (Response ok status None) \<longleftrightarrow> False"
| "empty_page field Throws \<longleftrightarrow> False"

text \<open>
  A success whose items array is longer than the engine accepts as the arguments of
  one call.
\<close>

fun too_long :: "nat \<Rightarrow> ('r body \<Rightarrow> 'r list option) \<Rightarrow> 'r reply \<Rightarrow> bool" where
  "too_long maxArgs field (Response ok status (Some data)) \<longleftrightarrow>
     ok \<and> (case field data of None \<Rightarrow> False | Some page \<Rightarrow> maxArgs < length page)"
| "too_long maxArgs field (Response ok status None) \<longleftrightarrow> False"
| "too_long maxArgs field Throws \<longleftrightarrow> False"

subsection \<open>Pages linked one to the next\<close>

text \<open>
  \<open>serves_linked field net k u ps\<close>: after \<open>k\<close> requests, asked for \<open>u\<close>, the
  network serves the pages \<open>ps\<close> one after the other; each element of \<open>ps\<close> is a
  page with its next link, and the next page is served at the absolute URL of that
  link. \<open>url_after u ps\<close> is the URL the last of these links leads to, and
  \<open>linked_events u ps\<close> are the events of fetching these pages.
\<close>

fun serves_linked ::
  "('r body \<Rightarrow> 'r list option) \<Rightarrow> 'r network \<Rightarrow> nat \<Rightarrow> string
     \<Rightarrow> ('r list \<times> string) list \<Rightarrow> bool" where
  "serves_linked field net k u [] \<longleftrightarrow> True"
| "serves_linked field net k u ((page, l) # ps) \<longleftrightarrow>
     succeeds field (net (Suc k) u) page (Some l) \<and>
     serves_linked field net (Suc k) (absolute l) ps"

fun url_after :: "string \<Rightarrow> ('r list \<times> string) list \<Rightarrow> string" where
  "url_after u [] = u"
| "url_after u ((page, l) # ps) = url_after (absolute l) ps"

fun linked_events :: "string \<Rightarrow> ('r list \<times> string) list \<Rightarrow> event list" where
  "linked_events u [] = []"
| "linked_events u ((page, l) # ps) = Request u # Sleep 200 # linked_events (absolute l) ps"

text \<open>
  \<open>pushable maxArgs ps\<close>: every page of \<open>ps\<close> is short enough to be pushed in one
  call, on an engine that accepts \<open>maxArgs\<close> arguments.
\<close>

definition pushable :: "nat \<Rightarrow> ('r list \<times> string) list \<Rightarrow> bool" where
  "pushable maxArgs ps = list_all (\<lambda>p. length (fst p) \<le> maxArgs) ps"

text \<open>The state of a loop after it has fetched the linked pages \<open>ps\<close>.\<close>

definition after_linked ::
  "string \<Rightarrow> ('r list \<times> string) list \<Rightarrow> 'r loop_state \<Rightarrow> 'r loop_state" where
  "after_linked u ps st =
     st\<lparr>allResults := allResults st @ concat (map fst ps),
        url := Some (url_after u ps),
        pageCount := pageCount st + length ps,
        events := events st @ linked_events u ps\<rparr>"

text \<open>
  The state in which a loop that started at \<open>u\<close> is left when, after the linked
  pages \<open>ps\<close>, its next request meets a \<open>break\<close>: that request is its last event.
  And the state in which it is left when the next request gets a last page without a
  next link.
\<close>

definition stopped_after :: "string \<Rightarrow> ('r list \<times> string) list \<Rightarrow> 'r loop_state" where
  "stopped_after u ps =
     \<lparr>allResults = concat (map fst ps),
      url = Some (url_after u ps),
      pageCount = Suc (length ps),
      events = linked_events u ps @ [Request (url_after u ps)]\<rparr>"

definition finished_after ::
  "string \<Rightarrow> ('r list \<times> string) list \<Rightarrow> 'r list \<Rightarrow> 'r loop_state" where
  "finished_after u ps page =
     \<lparr>allResults = concat (map fst ps) @ page,
      url = None,
      pageCount = Suc (length ps),
      events = linked_events u ps @ [Request (url_after u ps), Sleep 200]\<rparr>"

subsection \<open>Delays between requests\<close>

text \<open>
  \<open>delayed es\<close>: in the events \<open>es\<close> no request follows another request directly,
  and every pause is the fixed one of 200 ms. So between two consecutive requests
  there is a pause of 200 ms.
\<close>

fun delayed :: "event list \<Rightarrow> bool" where
  "delayed [] \<longleftrightarrow> True"
| "delayed (Sleep ms # es) \<longleftrightarrow> ms = 200 \<and> delayed es"
| "delayed [Request u] \<longleftrightarrow> True"
| "delayed (Request u # Request v # es) \<longleftrightarrow> False"
| "delayed (Request u # Sleep ms # es) \<longleftrightarrow> ms = 200 \<and> delayed es"

fun state_of :: "'a flow \<Rightarrow> 'a" where
  "state_of (Break st) = st"
| "state_of (Continue st) = st"

subsection \<open>Query parameters of a URL\<close>

fun split_on :: "char \<Rightarrow> string \<Rightarrow> string list" where
  "split_on c [] = [[]]"
| "split_on c (x # xs) =
     (if x = c then [] # split_on c xs
      else (case split_on c xs of [] \<Rightarrow> [[x]] | w # ws \<Rightarrow> (x # w) # ws))"

definition query_params :: "string \<Rightarrow> string list" where
  "query_params u = split_on CHR ''&'' (drop 1 (dropWhile (\<lambda>c. c \<noteq> CHR ''?'') u))"

subsection \<open>A network that serves one page\<close>

text \<open>
  The network that serves all of \<open>items\<close> as one page, in both items fields and
  without a next link, whatever is asked.
\<close>

definition at_once :: "'r list \<Rightarrow> 'r network" where
  "at_once items =
     (\<lambda>k u. Response True 200
        (Some \<lparr>data_results = Some items, data_transactions = Some items,
               data_links = None\<rparr>))"

section \<open>The snapshot artifact\<close>

text \<open>
  The snapshot as section 6 of the specification describes it, for a clock reading and
  the records of the two streams: the metadata with the contract's native id, its
  address form, the window label, the start and the end in epoch seconds, the time of
  collection and the two totals, then the inbound and the outbound records. It has no
  other field.
\<close>

definition snapshot_artifact :: "string \<Rightarrow> 'r list \<Rightarrow> 'r list \<Rightarrow> 'r snapshot" where
  "snapshot_artifact now cr tx =
     \<lparr>metadata =
        \<lparr>contractId = CONTRACT_ID, contractEvmAddress = CONTRACT_EVM_ADDRESS,
         period = ''2025'', startTimestamp = DATE_START, endTimestamp = DATE_END,
         fetchedAt = now, totalContractResults = length cr,
         totalTransactions = length tx\<rparr>,
      contractResults = cr, transactions = tx\<rparr>"

section \<open>A mock server\<close>

text \<open>
  A server that answers by URL alone: the initial URL of either collector gets a first
  page with a relative next link, that link a second page with an absolute next link,
  and that link the reply \<open>final\<close>. The pages are served in both items fields.
\<close>

definition page_reply :: "'r list \<Rightarrow> string option \<Rightarrow> 'r reply" where
  "page_reply items nxt =
     Response True 200
       (Some \<lparr>data_results = Some items, data_transactions = Some items,
              data_links = Some \<lparr>next = nxt\<rparr>\<rparr>)"

definition mock_server :: "nat reply \<Rightarrow> nat network" where
  "mock_server final k u =
     (if u = fetchContractResults_url \<or> u = fetchTransactionsFromContract_url
      then page_reply [1, 2] (Some ''/api/v1/page2'')
      else if u = ''https://mainnet-public.mirrornode.hedera.com/api/v1/page2''
      then page_reply [3] (Some ''https://mirror.example/page3'')
      else if u = ''https://mirror.example/page3'' then final
      else Throws)"

definition mock_pages :: "(nat list \<times> string) list" where
  "mock_pages = [([1, 2], ''/api/v1/page2''), ([3], ''https://mirror.example/page3'')]"

text \<open>
  A page of 131072 records, and a network that serves it first, with a next link, and
  answers every later request with the reply \<open>final\<close>.
\<close>

definition long_page :: "nat list" where
  "long_page = replicate 131072 0"

definition long_server :: "nat reply \<Rightarrow> nat network" where
  "long_server final k u =
     (if k = 1 then page_reply long_page (Some ''/api/v1/page2'') else final)"

section \<open>The Analyzer\<close>

text \<open>
  Modelled from the spec: the Analyzer, the script 2_analyze_users.js that the README
  tells the reader to run after the fetcher, is not among the sources. The definitions
  of this section follow the specification's contract of the address extractor and
  deduplicator: one identifier is extracted from every record (the calling account of an
  inbound record, the recipient of an outbound one; a record without the field is
  skipped), brought to its canonical textual form, dropped when it equals one of the
  forms of the contract's identity, and inserted into a set. The specification names
  neither the fields nor the normalisation, so the two extractors \<open>caller\<close> and
  \<open>recipient\<close> and the function \<open>canonical\<close> are parameters.
\<close>

text \<open>
  Modelled from the spec: the recognised forms of the contract's identity, which the
  missing Analyzer excludes: the native id and the EVM address.
\<close>

definition ContractIdentity :: "string list" where
  "ContractIdentity = [CONTRACT_ID, CONTRACT_EVM_ADDRESS]"

text \<open>
  Modelled from the spec: the extraction step of the missing Analyzer. The identifiers
  of the records of one stream, in canonical form; records without the field are
  skipped.
\<close>

definition identifiers ::
  "('r \<Rightarrow> string option) \<Rightarrow> (string \<Rightarrow> string) \<Rightarrow> 'r list \<Rightarrow> string list" where
  "identifiers field canonical rs = map canonical (List.map_filter field rs)"

text \<open>
  Modelled from the spec: the insertion step of the missing Analyzer. An identifier
  equal to a form of the contract's identity is not inserted.
\<close>

definition add_wallet :: "string \<Rightarrow> string set \<Rightarrow> string set" where
  "add_wallet w ws = (if w \<in> set ContractIdentity then ws else insert w ws)"

text \<open>
  Modelled from the spec: the wallet set the missing Analyzer computes from a snapshot,
  inserting the identifiers of the inbound records and then those of the outbound ones
  into the empty set.
\<close>

definition WalletSet ::
  "('r \<Rightarrow> string option) \<Rightarrow> ('r \<Rightarrow> string option) \<Rightarrow> (string \<Rightarrow> string)
     \<Rightarrow> 'r snapshot \<Rightarrow> string set" where
  "WalletSet caller recipient canonical snap =
     fold add_wallet
       (identifiers caller canonical (contractResults snap)
          @ identifiers recipient canonical (transactions snap)) {}"

text \<open>
  Modelled from the spec: the unique-wallet count the missing Analyzer reports, the
  size of the wallet set.
\<close>

definition uniqueWallets ::
  "('r \<Rightarrow> string option) \<Rightarrow> ('r \<Rightarrow> string option) \<Rightarrow> (string \<Rightarrow> string)
     \<Rightarrow> 'r snapshot \<Rightarrow> nat" where
  "uniqueWallets caller recipient canonical snap =
     card (WalletSet caller recipient canonical snap)"

text \<open>
  A snapshot to try the Analyzer on: the records are the counterparty identifiers
  themselves, an empty one standing for a record without the field.
\<close>

definition demo_snapshot :: "string snapshot" where
  "demo_snapshot =
     \<lparr>metadata =
        \<lparr>contractId = CONTRACT_ID, contractEvmAddress = CONTRACT_EVM_ADDRESS,
         period = ''2025'', startTimestamp = DATE_START, endTimestamp = DATE_END,
         fetchedAt = ''2025-12-02T09:30:00.000Z'', totalContractResults = 5,
         totalTransactions = 4\<rparr>,
      contractResults = [''0.0.1001'', ''0.0.1002'', ''0.0.1001'', ''0.0.9392720'', ''''],
      transactions = [''0.0.1002'', ''0.0.1003'',
        ''0x00000000000000000000000000000000008f5690'', ''0.0.1003'']\<rparr>"

definition demo_field :: "string \<Rightarrow> string option" where
  "demo_field r = (if r = [] then None else Some r)"

section \<open>Lemmas about the two loops\<close>

lemma body_renamed:
  "fetchTransactionsFromContract_body maxArgs (renamed net) u st = fetchContractResults_body maxArgs net u st"
  by (simp add: fetchTransactionsFromContract_body_def fetchContractResults_body_def
      renamed_def rename_reply_def rename_fields_def links_next_def Let_def
      split: reply.splits option.splits)

lemma passes_renamed:
  "fetchTransactionsFromContract_passes maxArgs n (renamed net) st = fetchContractResults_passes maxArgs n net st"
  by (induction n arbitrary: st) (simp_all add: body_renamed split: option.splits flow.splits)

lemma results_loop_passes:
  "fetchContractResults_passes maxArgs n net st = Break st' \<Longrightarrow> fetchContractResults_loop maxArgs net st = Some st'"
proof (induction n arbitrary: st)
  case 0
  then show ?case by simp
next
  case (Suc n)
  then show ?case
    by (subst fetchContractResults_loop.simps) (auto split: option.splits flow.splits if_splits)
qed

lemma results_passes_loop:
  "fetchContractResults_loop maxArgs net st = Some st' \<Longrightarrow> \<exists>n. fetchContractResults_passes maxArgs n net st = Break st'"
proof (induct rule: fetchContractResults_loop.raw_induct [rotated 1, consumes 1, case_names step])
  case (step loop maxArgs net st st')
  show ?case
  proof (cases "url st")
    case None
    with step(2) have "fetchContractResults_passes maxArgs (Suc 0) net st = Break st'" by simp
    then show ?thesis by blast
  next
    case (Some u)
    show ?thesis
    proof (cases "u = []")
      case True
      with Some step(2) have "fetchContractResults_passes maxArgs (Suc 0) net st = Break st'" by simp
      then show ?thesis by blast
    next
      case False
      show ?thesis
      proof (cases "fetchContractResults_body maxArgs net u st")
        case (Break b)
        with Some False step(2) have "fetchContractResults_passes maxArgs (Suc 0) net st = Break st'" by simp
        then show ?thesis by blast
      next
        case (Continue c)
        with Some False step(2) have "loop maxArgs net c = Some st'" by simp
        from step(1)[OF this] obtain n where "fetchContractResults_passes maxArgs n net c = Break st'" by blast
        with Some False Continue have "fetchContractResults_passes maxArgs (Suc n) net st = Break st'" by simp
        then show ?thesis by blast
      qed
    qed
  qed
qed

lemma transactions_loop_passes:
  "fetchTransactionsFromContract_passes maxArgs n net st = Break st' \<Longrightarrow>
   fetchTransactionsFromContract_loop maxArgs net st = Some st'"
proof (induction n arbitrary: st)
  case 0
  then show ?case by simp
next
  case (Suc n)
  then show ?case
    by (subst fetchTransactionsFromContract_loop.simps)
       (auto split: option.splits flow.splits if_splits)
qed

lemma transactions_passes_loop:
  "fetchTransactionsFromContract_loop maxArgs net st = Some st' \<Longrightarrow>
   \<exists>n. fetchTransactionsFromContract_passes maxArgs n net st = Break st'"
proof (induct rule: fetchTransactionsFromContract_loop.raw_induct
                      [rotated 1, consumes 1, case_names step])
  case (step loop maxArgs net st st')
  show ?case
  proof (cases "url st")
    case None
    with step(2) have "fetchTransactionsFromContract_passes maxArgs (Suc 0) net st = Break st'" by simp
    then show ?thesis by blast
  next
    case (Some u)
    show ?thesis
    proof (cases "u = []")
      case True
      with Some step(2) have "fetchTransactionsFromContract_passes maxArgs (Suc 0) net st = Break st'"
        by simp
      then show ?thesis by blast
    next
      case False
      show ?thesis
      proof (cases "fetchTransactionsFromContract_body maxArgs net u st")
        case (Break b)
        with Some False step(2)
        have "fetchTransactionsFromContract_passes maxArgs (Suc 0) net st = Break st'" by simp
        then show ?thesis by blast
      next
        case (Continue c)
        with Some False step(2) have "loop maxArgs net c = Some st'" by simp
        from step(1)[OF this] obtain n
          where "fetchTransactionsFromContract_passes maxArgs n net c = Break st'" by blast
        with Some False Continue
        have "fetchTransactionsFromContract_passes maxArgs (Suc n) net st = Break st'" by simp
        then show ?thesis by blast
      qed
    qed
  qed
qed

lemma loop_renamed:
  "fetchTransactionsFromContract_loop maxArgs (renamed net) st = fetchContractResults_loop maxArgs net st"
proof (cases "fetchContractResults_loop maxArgs net st")
  case (Some st')
  then obtain n where "fetchContractResults_passes maxArgs n net st = Break st'"
    using results_passes_loop by blast
  then have "fetchTransactionsFromContract_passes maxArgs n (renamed net) st = Break st'"
    by (simp add: passes_renamed)
  then show ?thesis using Some by (simp add: transactions_loop_passes)
next
  case None
  show ?thesis
  proof (cases "fetchTransactionsFromContract_loop maxArgs (renamed net) st")
    case None': None
    with None show ?thesis by simp
  next
    case (Some st')
    then obtain n where "fetchTransactionsFromContract_passes maxArgs n (renamed net) st = Break st'"
      using transactions_passes_loop by blast
    then have "fetchContractResults_passes maxArgs n net st = Break st'"
      by (simp add: passes_renamed)
    then have "fetchContractResults_loop maxArgs net st = Some st'" by (rule results_loop_passes)
    with None show ?thesis by simp
  qed
qed

lemma same_progress_sym: "same_progress a b \<Longrightarrow> same_progress b a"
  by (auto simp: same_progress_def)

lemma body_same_progress:
  assumes "\<And>k u u'. net k u = net k u'" and "same_progress st st'"
    and "u \<noteq> []" "u' \<noteq> []" "url st = Some u" "url st' = Some u'"
  shows "rel_flow same_progress (fetchContractResults_body maxArgs net u st)
           (fetchContractResults_body maxArgs net u' st')"
proof -
  have n: "net (Suc (pageCount st')) u = net (Suc (pageCount st')) u'" by (rule assms(1))
  show ?thesis
    using assms(2-) n
    by (simp add: fetchContractResults_body_def Let_def same_progress_def
        split: reply.splits option.splits)
qed

lemma passes_same_progress:
  assumes "\<And>k u u'. net k u = net k u'"
  shows "same_progress st st' \<Longrightarrow>
    rel_flow same_progress (fetchContractResults_passes maxArgs n net st)
      (fetchContractResults_passes maxArgs n net st')"
proof (induction n arbitrary: st st')
  case 0
  then show ?case by simp
next
  case (Suc n)
  show ?case
  proof (cases "url st \<in> {None, Some []}")
    case True
    with Suc.prems have "url st' = url st" by (auto simp: same_progress_def)
    with True Suc.prems show ?thesis by auto
  next
    case False
    with Suc.prems have F': "url st' \<notin> {None, Some []}" by (auto simp: same_progress_def)
    from False obtain u where u: "url st = Some u" "u \<noteq> []" by (cases "url st") auto
    from F' obtain u' where u': "url st' = Some u'" "u' \<noteq> []" by (cases "url st'") auto
    have b: "rel_flow same_progress (fetchContractResults_body maxArgs net u st)
           (fetchContractResults_body maxArgs net u' st')"
      using assms Suc.prems u u' by (intro body_same_progress) auto
    show ?thesis
    proof (cases "fetchContractResults_body maxArgs net u st")
      case (Break a)
      with b obtain a' where "fetchContractResults_body maxArgs net u' st' = Break a'" "same_progress a a'"
        by (cases "fetchContractResults_body maxArgs net u' st'") auto
      with Break u u' show ?thesis by simp
    next
      case (Continue a)
      with b obtain a' where "fetchContractResults_body maxArgs net u' st' = Continue a'" "same_progress a a'"
        by (cases "fetchContractResults_body maxArgs net u' st'") auto
      with Continue u u' Suc.IH[of a a'] show ?thesis by simp
    qed
  qed
qed

lemma loop_same_progress:
  assumes "\<And>k u u'. net k u = net k u'" and "same_progress st st'"
  shows "map_option allResults (fetchContractResults_loop maxArgs net st) =
         map_option allResults (fetchContractResults_loop maxArgs net st')"
proof -
  have half: "\<exists>b. fetchContractResults_loop maxArgs net t' = Some b \<and> allResults b = allResults a"
    if "fetchContractResults_loop maxArgs net t = Some a" "same_progress t t'" for t t' a
  proof -
    from that(1) obtain n where n: "fetchContractResults_passes maxArgs n net t = Break a"
      using results_passes_loop by blast
    have "rel_flow same_progress (fetchContractResults_passes maxArgs n net t)
      (fetchContractResults_passes maxArgs n net t')"
      using assms(1) that(2) by (rule passes_same_progress)
    with n obtain b where "fetchContractResults_passes maxArgs n net t' = Break b" "same_progress a b"
      by (cases "fetchContractResults_passes maxArgs n net t'") auto
    then show ?thesis by (auto simp: same_progress_def dest: results_loop_passes)
  qed
  show ?thesis
  proof (cases "fetchContractResults_loop maxArgs net st")
    case (Some a)
    with half[OF Some assms(2)] show ?thesis by auto
  next
    case None
    show ?thesis
    proof (cases "fetchContractResults_loop maxArgs net st'")
      case None': None
      with None show ?thesis by simp
    next
      case (Some b)
      with half[OF Some same_progress_sym[OF assms(2)]] None show ?thesis by auto
    qed
  qed
qed

lemma url_nonempty:
  "fetchContractResults_url \<noteq> []" "fetchTransactionsFromContract_url \<noteq> []"
  by (simp_all add: fetchContractResults_url_def fetchTransactionsFromContract_url_def
      MIRROR_NODE_BASE_def)

section \<open>Lemmas about linked pages\<close>

lemma absolute_nonempty: "l \<noteq> [] \<Longrightarrow> absolute l \<noteq> []"
  by (simp add: absolute_def)

lemma succeeds_link_nonempty:
  assumes "succeeds field r page (Some l)"
  shows "l \<noteq> []"
  using assms
proof (cases r)
  case Throws
  with assms show ?thesis by simp
next
  case (Response ok status parsed)
  with assms show ?thesis by (cases parsed) (auto split: option.splits if_splits)
qed

lemma body_succeeds_linked:
  assumes "succeeds data_results (net (Suc (pageCount st)) u) page (Some l)"
    and "length page \<le> maxArgs"
  shows "fetchContractResults_body maxArgs net u st =
     Continue (st\<lparr>allResults := allResults st @ page, url := Some (absolute l),
                  pageCount := Suc (pageCount st),
                  events := events st @ [Request u, Sleep 200]\<rparr>)"
proof (cases "net (Suc (pageCount st)) u")
  case Throws
  with assms show ?thesis by simp
next
  case (Response ok status parsed)
  with assms obtain data where "parsed = Some data" by (cases parsed) auto
  with assms Response show ?thesis
    by (auto simp: fetchContractResults_body_def Let_def absolute_def
        split: option.splits if_splits)
qed

lemma body_succeeds_last:
  assumes "succeeds data_results (net (Suc (pageCount st)) u) page None"
    and "length page \<le> maxArgs"
  shows "fetchContractResults_body maxArgs net u st =
     Continue (st\<lparr>allResults := allResults st @ page, url := None,
                  pageCount := Suc (pageCount st),
                  events := events st @ [Request u, Sleep 200]\<rparr>)"
proof (cases "net (Suc (pageCount st)) u")
  case Throws
  with assms show ?thesis by simp
next
  case (Response ok status parsed)
  with assms obtain data where "parsed = Some data" by (cases parsed) auto
  with assms Response show ?thesis
    by (auto simp: fetchContractResults_body_def Let_def
        split: option.splits if_splits)
qed

lemma body_fails:
  assumes "fails (net (Suc (pageCount st)) u)"
  shows "fetchContractResults_body maxArgs net u st =
     Break (st\<lparr>pageCount := Suc (pageCount st), events := events st @ [Request u]\<rparr>)"
  using assms
  by (cases "net (Suc (pageCount st)) u")
     (auto simp: fetchContractResults_body_def Let_def)

lemma body_empty_page:
  assumes "empty_page data_results (net (Suc (pageCount st)) u)"
  shows "fetchContractResults_body maxArgs net u st =
     Break (st\<lparr>pageCount := Suc (pageCount st), events := events st @ [Request u]\<rparr>)"
proof (cases "net (Suc (pageCount st)) u")
  case Throws
  with assms show ?thesis by simp
next
  case (Response ok status parsed)
  with assms obtain data where "parsed = Some data" by (cases parsed) auto
  with assms Response show ?thesis
    by (auto simp: fetchContractResults_body_def Let_def)
qed

lemma body_too_long:
  assumes "too_long maxArgs data_results (net (Suc (pageCount st)) u)"
  shows "fetchContractResults_body maxArgs net u st =
     Break (st\<lparr>pageCount := Suc (pageCount st), events := events st @ [Request u]\<rparr>)"
proof (cases "net (Suc (pageCount st)) u")
  case Throws
  with assms show ?thesis by simp
next
  case (Response ok status parsed)
  with assms obtain data where "parsed = Some data" by (cases parsed) auto
  with assms Response show ?thesis
    by (auto simp: fetchContractResults_body_def Let_def split: option.splits)
qed

lemma after_linked_Nil: "url st = Some u \<Longrightarrow> after_linked u [] st = st"
  by (simp add: after_linked_def)

lemma after_linked_Cons:
  "after_linked u ((page, l) # ps) st =
   after_linked (absolute l) ps
     (st\<lparr>allResults := allResults st @ page, url := Some (absolute l),
         pageCount := Suc (pageCount st),
         events := events st @ [Request u, Sleep 200]\<rparr>)"
  by (simp add: after_linked_def)

lemma passes_linked:
  "serves_linked data_results net (pageCount st) u ps \<Longrightarrow> url st = Some u \<Longrightarrow> u \<noteq> [] \<Longrightarrow>
   pushable maxArgs ps \<Longrightarrow>
   fetchContractResults_passes maxArgs (length ps + m) net st =
   fetchContractResults_passes maxArgs m net (after_linked u ps st)"
proof (induction ps arbitrary: st u)
  case Nil
  then show ?case by (simp add: after_linked_Nil)
next
  case (Cons p ps)
  obtain page l where p: "p = (page, l)" by (cases p)
  let ?st = "st\<lparr>allResults := allResults st @ page, url := Some (absolute l),
         pageCount := Suc (pageCount st),
         events := events st @ [Request u, Sleep 200]\<rparr>"
  from Cons.prems p have s: "succeeds data_results (net (Suc (pageCount st)) u) page (Some l)"
    and r: "serves_linked data_results net (pageCount ?st) (absolute l) ps"
    and f: "length page \<le> maxArgs" "pushable maxArgs ps"
    by (simp_all add: pushable_def)
  from s have l: "absolute l \<noteq> []" by (intro absolute_nonempty) (rule succeeds_link_nonempty)
  have "fetchContractResults_passes maxArgs (length (p # ps) + m) net st =
        fetchContractResults_passes maxArgs (length ps + m) net ?st"
    using Cons.prems(2,3) s f(1)
      body_succeeds_linked[where net = net and st = st and u = u and page = page and l = l
        and maxArgs = maxArgs]
    by simp
  also have "\<dots> = fetchContractResults_passes maxArgs m net (after_linked (absolute l) ps ?st)"
    using r l f(2) by (intro Cons.IH) simp_all
  finally show ?case by (simp add: p after_linked_Cons)
qed

lemma url_after_nonempty:
  "serves_linked field net k u ps \<Longrightarrow> u \<noteq> [] \<Longrightarrow> url_after u ps \<noteq> []"
proof (induction ps arbitrary: k u)
  case Nil
  then show ?case by simp
next
  case (Cons p ps)
  obtain page l where p: "p = (page, l)" by (cases p)
  with Cons.prems have s: "succeeds field (net (Suc k) u) page (Some l)"
    and r: "serves_linked field net (Suc k) (absolute l) ps" by simp_all
  from s have "absolute l \<noteq> []" by (intro absolute_nonempty) (rule succeeds_link_nonempty)
  with r have "url_after (absolute l) ps \<noteq> []" by (rule Cons.IH)
  with p show ?case by simp
qed

section \<open>Lemmas about how a loop ends\<close>

lemma renamed_renamed [simp]: "renamed (renamed net) = net"
proof -
  have "rename_reply (rename_reply r) = r" for r :: "'a reply"
    by (cases r) (auto simp: rename_reply_def rename_fields_def option.map_comp o_def option.map_ident)
  then show ?thesis by (simp add: renamed_def)
qed

lemma succeeds_renamed:
  "succeeds data_transactions r page nxt = succeeds data_results (rename_reply r) page nxt"
proof (cases r)
  case Throws
  then show ?thesis by (simp add: rename_reply_def)
next
  case (Response ok status parsed)
  then show ?thesis
    by (cases parsed) (simp_all add: rename_reply_def rename_fields_def links_next_def)
qed

lemma fails_renamed: "fails (rename_reply r) = fails r"
  by (cases r) (simp_all add: rename_reply_def)

lemma empty_page_renamed:
  "empty_page data_transactions r = empty_page data_results (rename_reply r)"
proof (cases r)
  case Throws
  then show ?thesis by (simp add: rename_reply_def)
next
  case (Response ok status parsed)
  then show ?thesis
    by (cases parsed) (simp_all add: rename_reply_def rename_fields_def)
qed

lemma too_long_renamed:
  "too_long maxArgs data_transactions r = too_long maxArgs data_results (rename_reply r)"
proof (cases r)
  case Throws
  then show ?thesis by (simp add: rename_reply_def)
next
  case (Response ok status parsed)
  then show ?thesis
    by (cases parsed) (simp_all add: rename_reply_def rename_fields_def)
qed

lemma serves_linked_renamed:
  "serves_linked data_transactions net k u ps = serves_linked data_results (renamed net) k u ps"
  by (induction ps arbitrary: k u) (auto simp: succeeds_renamed renamed_def)

lemma transactions_loop_renamed:
  "fetchTransactionsFromContract_loop maxArgs net st = fetchContractResults_loop maxArgs (renamed net) st"
  using loop_renamed[where net = "renamed net" and st = st and maxArgs = maxArgs] by simp

text \<open>How a loop ends after the linked pages.\<close>

lemma results_loop_linked_break:
  assumes "serves_linked data_results net (pageCount st) u ps" "url st = Some u" "u \<noteq> []"
    and "fails (net (Suc (pageCount st + length ps)) (url_after u ps)) \<or>
         empty_page data_results (net (Suc (pageCount st + length ps)) (url_after u ps)) \<or>
         too_long maxArgs data_results (net (Suc (pageCount st + length ps)) (url_after u ps))"
    and "pushable maxArgs ps"
  shows "fetchContractResults_loop maxArgs net st =
     Some (st\<lparr>allResults := allResults st @ concat (map fst ps),
              url := Some (url_after u ps),
              pageCount := Suc (pageCount st + length ps),
              events := events st @ linked_events u ps @ [Request (url_after u ps)]\<rparr>)"
proof -
  let ?a = "after_linked u ps st"
  have u: "url ?a = Some (url_after u ps)" "url_after u ps \<noteq> []"
    "pageCount ?a = pageCount st + length ps"
    using assms(1,3) by (simp_all add: after_linked_def url_after_nonempty)
  have "fetchContractResults_body maxArgs net (url_after u ps) ?a =
     Break (?a\<lparr>pageCount := Suc (pageCount ?a), events := events ?a @ [Request (url_after u ps)]\<rparr>)"
  proof -
    from assms(4) u(3)
    have "fails (net (Suc (pageCount ?a)) (url_after u ps)) \<or>
          empty_page data_results (net (Suc (pageCount ?a)) (url_after u ps)) \<or>
          too_long maxArgs data_results (net (Suc (pageCount ?a)) (url_after u ps))" by simp
    then show ?thesis
    proof (elim disjE)
      assume "fails (net (Suc (pageCount ?a)) (url_after u ps))"
      then show ?thesis by (rule body_fails)
    next
      assume "empty_page data_results (net (Suc (pageCount ?a)) (url_after u ps))"
      then show ?thesis by (rule body_empty_page)
    next
      assume "too_long maxArgs data_results (net (Suc (pageCount ?a)) (url_after u ps))"
      then show ?thesis by (rule body_too_long)
    qed
  qed
  with u have "fetchContractResults_passes maxArgs (Suc 0) net ?a =
     Break (?a\<lparr>pageCount := Suc (pageCount ?a), events := events ?a @ [Request (url_after u ps)]\<rparr>)"
    by simp
  with passes_linked[OF assms(1-3) assms(5), where m = "Suc 0"]
  have "fetchContractResults_passes maxArgs (length ps + Suc 0) net st =
     Break (?a\<lparr>pageCount := Suc (pageCount ?a), events := events ?a @ [Request (url_after u ps)]\<rparr>)"
    by simp
  then have "fetchContractResults_loop maxArgs net st =
     Some (?a\<lparr>pageCount := Suc (pageCount ?a), events := events ?a @ [Request (url_after u ps)]\<rparr>)"
    by (rule results_loop_passes)
  then show ?thesis by (simp add: after_linked_def)
qed

lemma results_loop_linked_last:
  assumes "serves_linked data_results net (pageCount st) u ps" "url st = Some u" "u \<noteq> []"
    and "succeeds data_results (net (Suc (pageCount st + length ps)) (url_after u ps)) page None"
    and "pushable maxArgs ps" "length page \<le> maxArgs"
  shows "fetchContractResults_loop maxArgs net st =
     Some (st\<lparr>allResults := allResults st @ concat (map fst ps) @ page,
              url := None,
              pageCount := Suc (pageCount st + length ps),
              events := events st @ linked_events u ps
                          @ [Request (url_after u ps), Sleep 200]\<rparr>)"
proof -
  let ?a = "after_linked u ps st"
  let ?b = "?a\<lparr>allResults := allResults ?a @ page, url := None,
                  pageCount := Suc (pageCount ?a),
                  events := events ?a @ [Request (url_after u ps), Sleep 200]\<rparr>"
  have u: "url ?a = Some (url_after u ps)" "url_after u ps \<noteq> []"
    "pageCount ?a = pageCount st + length ps"
    using assms(1,3) by (simp_all add: after_linked_def url_after_nonempty)
  have "fetchContractResults_body maxArgs net (url_after u ps) ?a = Continue ?b"
    using assms(4,6) u(3) by (intro body_succeeds_last) simp_all
  with u have "fetchContractResults_passes maxArgs (Suc (Suc 0)) net ?a = Break ?b"
    by simp
  with passes_linked[OF assms(1-3) assms(5), where m = "Suc (Suc 0)"]
  have "fetchContractResults_passes maxArgs (length ps + Suc (Suc 0)) net st = Break ?b"
    by simp
  then have "fetchContractResults_loop maxArgs net st = Some ?b"
    by (rule results_loop_passes)
  then show ?thesis by (simp add: after_linked_def)
qed

section \<open>The collectors on linked pages\<close>

lemma results_stopped:
  assumes "serves_linked data_results net 0 fetchContractResults_url ps"
    and "pushable maxArgs ps"
    and "fails (net (Suc (length ps)) (url_after fetchContractResults_url ps)) \<or>
         empty_page data_results (net (Suc (length ps)) (url_after fetchContractResults_url ps))
         \<or> too_long maxArgs data_results
           (net (Suc (length ps)) (url_after fetchContractResults_url ps))"
  shows "fetchContractResults_loop maxArgs net fetchContractResults_init =
           Some (stopped_after fetchContractResults_url ps)"
  using results_loop_linked_break[where net = net and st = fetchContractResults_init
      and u = fetchContractResults_url and ps = ps and maxArgs = maxArgs]
    assms url_nonempty(1)
  by (simp add: fetchContractResults_init_def stopped_after_def)

lemma transactions_stopped:
  assumes "serves_linked data_transactions net 0 fetchTransactionsFromContract_url ps"
    and "pushable maxArgs ps"
    and "fails (net (Suc (length ps)) (url_after fetchTransactionsFromContract_url ps)) \<or>
         empty_page data_transactions
           (net (Suc (length ps)) (url_after fetchTransactionsFromContract_url ps)) \<or>
         too_long maxArgs data_transactions
           (net (Suc (length ps)) (url_after fetchTransactionsFromContract_url ps))"
  shows "fetchTransactionsFromContract_loop maxArgs net fetchTransactionsFromContract_init =
           Some (stopped_after fetchTransactionsFromContract_url ps)"
  using results_loop_linked_break[where net = "renamed net"
      and st = fetchTransactionsFromContract_init
      and u = fetchTransactionsFromContract_url and ps = ps and maxArgs = maxArgs]
    assms url_nonempty(2)
  by (simp add: fetchTransactionsFromContract_init_def stopped_after_def
      transactions_loop_renamed serves_linked_renamed empty_page_renamed too_long_renamed
      renamed_def fails_renamed)

lemma results_finished:
  assumes "serves_linked data_results net 0 fetchContractResults_url ps"
    and "pushable maxArgs ps" "length page \<le> maxArgs"
    and "succeeds data_results (net (Suc (length ps)) (url_after fetchContractResults_url ps))
           page None"
  shows "fetchContractResults_loop maxArgs net fetchContractResults_init =
           Some (finished_after fetchContractResults_url ps page)"
  using results_loop_linked_last[where net = net and st = fetchContractResults_init
      and u = fetchContractResults_url and ps = ps and page = page and maxArgs = maxArgs]
    assms url_nonempty(1)
  by (simp add: fetchContractResults_init_def finished_after_def)

lemma transactions_finished:
  assumes "serves_linked data_transactions net 0 fetchTransactionsFromContract_url ps"
    and "pushable maxArgs ps" "length page \<le> maxArgs"
    and "succeeds data_transactions
           (net (Suc (length ps)) (url_after fetchTransactionsFromContract_url ps)) page None"
  shows "fetchTransactionsFromContract_loop maxArgs net fetchTransactionsFromContract_init =
           Some (finished_after fetchTransactionsFromContract_url ps page)"
  using results_loop_linked_last[where net = "renamed net"
      and st = fetchTransactionsFromContract_init
      and u = fetchTransactionsFromContract_url and ps = ps and page = page
      and maxArgs = maxArgs]
    assms url_nonempty(2)
  by (simp add: fetchTransactionsFromContract_init_def finished_after_def
      transactions_loop_renamed serves_linked_renamed succeeds_renamed renamed_def)

section \<open>The mock server\<close>

lemma mock_results_linked:
  "serves_linked data_results (mock_server final) 0 fetchContractResults_url mock_pages"
  by (simp add: mock_pages_def mock_server_def page_reply_def links_next_def absolute_def
      fetchContractResults_url_def fetchTransactionsFromContract_url_def MIRROR_NODE_BASE_def)

lemma mock_transactions_linked:
  "serves_linked data_transactions (mock_server final) 0 fetchTransactionsFromContract_url
     mock_pages"
  by (simp add: mock_pages_def mock_server_def page_reply_def links_next_def absolute_def
      fetchContractResults_url_def fetchTransactionsFromContract_url_def MIRROR_NODE_BASE_def)

lemma mock_final:
  "mock_server final k (url_after u mock_pages) = final"
  by (simp add: mock_pages_def mock_server_def absolute_def
      fetchContractResults_url_def fetchTransactionsFromContract_url_def MIRROR_NODE_BASE_def)

lemma mock_records: "concat (map fst mock_pages) = [1, 2, 3]"
  by (simp add: mock_pages_def)

lemma at_once_empty:
  "empty_page data_results (at_once [] k u)" "empty_page data_transactions (at_once [] k u)"
  by (simp_all add: at_once_def)

lemma mock_empty:
  "empty_page data_results (page_reply [] nxt)" "empty_page data_transactions (page_reply [] nxt)"
  by (simp_all add: page_reply_def)

lemma mock_last:
  "succeeds data_results (page_reply [4, 5] None) [4, 5] None"
  "succeeds data_transactions (page_reply [4, 5] None) [4, 5] None"
  by (simp_all add: page_reply_def links_next_def)

lemma mock_pushable: "2 \<le> maxArgs \<Longrightarrow> pushable maxArgs mock_pages"
  by (simp add: pushable_def mock_pages_def)

lemma long_page_length: "length long_page = 131072"
  by (simp add: long_page_def)

lemma long_page_nonempty: "long_page \<noteq> []"
  by (simp add: long_page_def)

lemma at_once_long:
  "succeeds data_results (at_once long_page k u) long_page None"
  "succeeds data_transactions (at_once long_page k u) long_page None"
  "too_long 131071 data_results (at_once long_page k u)"
  "too_long 131071 data_transactions (at_once long_page k u)"
  by (simp_all add: at_once_def links_next_def long_page_nonempty long_page_length)

lemma long_server_linked:
  "serves_linked data_results (long_server final) 0 u [(long_page, ''/api/v1/page2'')]"
  "serves_linked data_transactions (long_server final) 0 u [(long_page, ''/api/v1/page2'')]"
  by (simp_all add: long_server_def page_reply_def links_next_def long_page_nonempty)

lemma long_server_too_long:
  "too_long 131071 data_results (long_server final (Suc 0) u)"
  "too_long 131071 data_transactions (long_server final (Suc 0) u)"
  by (simp_all add: long_server_def page_reply_def long_page_length)

lemma long_server_second: "long_server final (Suc (Suc 0)) u = final"
  by (simp add: long_server_def)

lemma long_server_results:
  "fetchContractResults 131071 (long_server final) = Some []"
proof -
  have "fetchContractResults_loop 131071 (long_server final) fetchContractResults_init =
      Some (stopped_after fetchContractResults_url [])"
    by (intro results_stopped) (simp_all add: pushable_def long_server_too_long)
  then show ?thesis by (simp add: fetchContractResults_def stopped_after_def)
qed

lemma long_server_transactions:
  "fetchTransactionsFromContract 131071 (long_server final) = Some []"
proof -
  have "fetchTransactionsFromContract_loop 131071 (long_server final)
      fetchTransactionsFromContract_init =
      Some (stopped_after fetchTransactionsFromContract_url [])"
    by (intro transactions_stopped) (simp_all add: pushable_def long_server_too_long)
  then show ?thesis by (simp add: fetchTransactionsFromContract_def stopped_after_def)
qed

lemma at_once_long_results:
  "fetchContractResults 131071 (at_once long_page) = Some []"
proof -
  have "fetchContractResults_loop 131071 (at_once long_page) fetchContractResults_init =
      Some (stopped_after fetchContractResults_url [])"
    by (intro results_stopped) (simp_all add: pushable_def at_once_long)
  then show ?thesis by (simp add: fetchContractResults_def stopped_after_def)
qed

lemma at_once_long_transactions:
  "fetchTransactionsFromContract 131071 (at_once long_page) = Some []"
proof -
  have "fetchTransactionsFromContract_loop 131071 (at_once long_page)
      fetchTransactionsFromContract_init =
      Some (stopped_after fetchTransactionsFromContract_url [])"
    by (intro transactions_stopped) (simp_all add: pushable_def at_once_long)
  then show ?thesis by (simp add: fetchTransactionsFromContract_def stopped_after_def)
qed

lemma mock_results_stopped:
  assumes "fails final \<or> empty_page data_results final"
  shows "fetchContractResults 131071 (mock_server final) = Some [1, 2, 3]"
proof -
  have "fetchContractResults_loop 131071 (mock_server final) fetchContractResults_init =
      Some (stopped_after fetchContractResults_url mock_pages)"
    using assms
    by (intro results_stopped) (auto simp: mock_results_linked mock_final mock_pushable)
  then show ?thesis by (simp add: fetchContractResults_def stopped_after_def mock_records)
qed

lemma mock_transactions_stopped:
  assumes "fails final \<or> empty_page data_transactions final"
  shows "fetchTransactionsFromContract 131071 (mock_server final) = Some [1, 2, 3]"
proof -
  have "fetchTransactionsFromContract_loop 131071 (mock_server final)
      fetchTransactionsFromContract_init =
      Some (stopped_after fetchTransactionsFromContract_url mock_pages)"
    using assms
    by (intro transactions_stopped) (auto simp: mock_transactions_linked mock_final mock_pushable)
  then show ?thesis
    by (simp add: fetchTransactionsFromContract_def stopped_after_def mock_records)
qed

section \<open>Lemmas about delays\<close>

lemma delayed_snoc_sleep: "delayed es \<Longrightarrow> delayed (es @ [Sleep 200])"
  by (induction es rule: delayed.induct) simp_all

lemma delayed_snoc_request:
  "delayed es \<Longrightarrow> es = [] \<or> last es = Sleep 200 \<Longrightarrow> delayed (es @ [Request u])"
  by (induction es rule: delayed.induct) (auto split: if_splits)

lemma delayed_after_request:
  "delayed es \<Longrightarrow> Suc i < length es \<Longrightarrow> es ! i = Request u \<Longrightarrow> es ! Suc i = Sleep 200"
proof (induction es arbitrary: i rule: delayed.induct)
  case 1
  then show ?case by simp
next
  case (2 ms es)
  then show ?case by (cases i) auto
next
  case (3 u)
  then show ?case by simp
next
  case (4 u v es)
  then show ?case by simp
next
  case (5 u ms es)
  show ?case
  proof (cases i)
    case 0
    with 5 show ?thesis by simp
  next
    case (Suc j)
    show ?thesis
    proof (cases j)
      case 0
      with 5 Suc show ?thesis by simp
    next
      case j: (Suc k)
      with 5 Suc show ?thesis by simp
    qed
  qed
qed

lemma results_body_events:
  "(\<exists>st'. fetchContractResults_body maxArgs net u st = Break st' \<and>
          events st' = events st @ [Request u]) \<or>
   (\<exists>st'. fetchContractResults_body maxArgs net u st = Continue st' \<and>
          events st' = events st @ [Request u, Sleep 200])"
  by (simp add: fetchContractResults_body_def Let_def split: reply.splits option.splits)

lemma results_passes_delayed:
  "delayed (events st) \<Longrightarrow> events st = [] \<or> last (events st) = Sleep 200 \<Longrightarrow>
   delayed (events (state_of (fetchContractResults_passes maxArgs n net st)))"
proof (induction n arbitrary: st)
  case 0
  then show ?case by simp
next
  case (Suc n)
  show ?case
  proof (cases "url st")
    case None
    with Suc.prems show ?thesis by simp
  next
    case (Some u)
    show ?thesis
    proof (cases "u = []")
      case True
      with Some Suc.prems show ?thesis by simp
    next
      case False
      have d: "delayed (events st @ [Request u])"
        using Suc.prems by (rule delayed_snoc_request)
      from results_body_events[where net = net and u = u and st = st and maxArgs = maxArgs] show ?thesis
      proof (elim disjE exE conjE)
        fix st' assume "fetchContractResults_body maxArgs net u st = Break st'"
          "events st' = events st @ [Request u]"
        with Some False d show ?thesis by simp
      next
        fix st' assume b: "fetchContractResults_body maxArgs net u st = Continue st'"
          and e: "events st' = events st @ [Request u, Sleep 200]"
        from d have "delayed ((events st @ [Request u]) @ [Sleep 200])"
          by (rule delayed_snoc_sleep)
        with e have "delayed (events st')" "events st' = [] \<or> last (events st') = Sleep 200"
          by simp_all
        then have "delayed (events (state_of (fetchContractResults_passes maxArgs n net st')))"
          by (rule Suc.IH)
        with Some False b show ?thesis by simp
      qed
    qed
  qed
qed

lemma transactions_passes_renamed:
  "fetchTransactionsFromContract_passes maxArgs n net st = fetchContractResults_passes maxArgs n (renamed net) st"
  using passes_renamed[where n = n and net = "renamed net" and st = st and maxArgs = maxArgs] by simp

section \<open>Lemmas about main and the first request\<close>

lemma main_Some:
  assumes "fetchContractResults maxArgs net_in = Some cr"
    and "fetchTransactionsFromContract maxArgs net_out = Some tx"
  shows "main maxArgs net_in net_out now writeFileSync =
    (let allData =
       \<lparr>metadata =
          \<lparr>contractId = CONTRACT_ID, contractEvmAddress = CONTRACT_EVM_ADDRESS,
           period = ''2025'', startTimestamp = DATE_START, endTimestamp = DATE_END,
           fetchedAt = now, totalContractResults = length cr,
           totalTransactions = length tx\<rparr>,
        contractResults = cr, transactions = tx\<rparr>
     in if writeFileSync ''dexpay_contract_calls_2025.json'' allData
        then Some (Saved ''dexpay_contract_calls_2025.json'' allData) else Some Exit1)"
  using assms by (simp add: main_def Let_def)

lemma main_Saved:
  assumes "main maxArgs net_in net_out now writeFileSync = Some (Saved filename allData)"
  shows "\<exists>cr tx. fetchContractResults maxArgs net_in = Some cr \<and>
     fetchTransactionsFromContract maxArgs net_out = Some tx \<and>
     filename = ''dexpay_contract_calls_2025.json'' \<and>
     allData = \<lparr>metadata =
          \<lparr>contractId = CONTRACT_ID, contractEvmAddress = CONTRACT_EVM_ADDRESS,
           period = ''2025'', startTimestamp = DATE_START, endTimestamp = DATE_END,
           fetchedAt = now, totalContractResults = length cr,
           totalTransactions = length tx\<rparr>,
        contractResults = cr, transactions = tx\<rparr>"
proof (cases "fetchContractResults maxArgs net_in")
  case None
  with assms show ?thesis by (simp add: main_def)
next
  case cr: (Some cr)
  show ?thesis
  proof (cases "fetchTransactionsFromContract maxArgs net_out")
    case None
    with assms cr show ?thesis by (simp add: main_def)
  next
    case (Some tx)
    with assms cr show ?thesis
      by (simp add: main_Some[OF cr Some] Let_def split: if_splits)
  qed
qed

lemma DATE_START_value: "DATE_START = 1759276800"
  by (simp add: DATE_START_def getTime_def days_from_civil_def)

lemma DATE_END_value: "DATE_END = 1764547200"
  by (simp add: DATE_END_def getTime_def days_from_civil_def)

lemma decimal_DATE_START: "decimal DATE_START = ''1759276800''"
  by (simp add: DATE_START_value decimal.simps digit_def)

lemma decimal_DATE_END: "decimal DATE_END = ''1764547200''"
  by (simp add: DATE_END_value decimal.simps digit_def)

lemma query_params_results:
  "query_params fetchContractResults_url =
     [''timestamp=gte:1759276800'', ''timestamp=lt:1764547200'', ''limit=100'', ''order=asc'']"
  by (simp add: query_params_def fetchContractResults_url_def MIRROR_NODE_BASE_def
      CONTRACT_ID_def decimal_DATE_START decimal_DATE_END)

lemma query_params_transactions:
  "query_params fetchTransactionsFromContract_url =
     [''account.id=0.0.9392720'', ''timestamp=gte:1759276800'', ''timestamp=lt:1764547200'',
      ''limit=100'', ''order=asc'']"
  by (simp add: query_params_def fetchTransactionsFromContract_url_def MIRROR_NODE_BASE_def
      CONTRACT_ID_def decimal_DATE_START decimal_DATE_END)

lemma results_passes_events:
  "\<exists>es. events (state_of (fetchContractResults_passes maxArgs n net st)) = events st @ es"
proof (induction n arbitrary: st)
  case 0
  then show ?case by simp
next
  case (Suc n)
  show ?case
  proof (cases "url st")
    case None
    then show ?thesis by simp
  next
    case (Some u)
    show ?thesis
    proof (cases "u = []")
      case True
      with Some show ?thesis by simp
    next
      case False
      from results_body_events[where net = net and u = u and st = st and maxArgs = maxArgs] show ?thesis
      proof (elim disjE exE conjE)
        fix st' assume "fetchContractResults_body maxArgs net u st = Break st'"
          "events st' = events st @ [Request u]"
        with Some False show ?thesis by simp
      next
        fix st' assume b: "fetchContractResults_body maxArgs net u st = Continue st'"
          and e: "events st' = events st @ [Request u, Sleep 200]"
        from Suc.IH[of st'] obtain es
          where "events (state_of (fetchContractResults_passes maxArgs n net st')) = events st' @ es"
          by blast
        with Some False b e show ?thesis by simp
      qed
    qed
  qed
qed

lemma results_first_request:
  assumes "url st = Some u" "u \<noteq> []" "events st = []"
  shows "take 1 (events (state_of (fetchContractResults_passes maxArgs (Suc n) net st))) = [Request u]"
proof -
  from results_body_events[where net = net and u = u and st = st and maxArgs = maxArgs] show ?thesis
  proof (elim disjE exE conjE)
    fix st' assume "fetchContractResults_body maxArgs net u st = Break st'"
      "events st' = events st @ [Request u]"
    with assms show ?thesis by simp
  next
    fix st' assume b: "fetchContractResults_body maxArgs net u st = Continue st'"
      and e: "events st' = events st @ [Request u, Sleep 200]"
    from results_passes_events[where n = n and net = net and st = st' and maxArgs = maxArgs] obtain es
      where "events (state_of (fetchContractResults_passes maxArgs n net st')) = events st' @ es"
      by blast
    with assms b e show ?thesis by simp
  qed
qed

lemma mock_transactions_finished:
  "fetchTransactionsFromContract 131071 (mock_server (page_reply [4, 5] None)) =
     Some [1, 2, 3, 4, 5]"
proof -
  have "fetchTransactionsFromContract_loop 131071 (mock_server (page_reply [4, 5] None))
      fetchTransactionsFromContract_init =
      Some (finished_after fetchTransactionsFromContract_url mock_pages [4, 5])"
    by (intro transactions_finished)
       (simp_all add: mock_transactions_linked mock_final mock_last mock_pushable)
  then show ?thesis
    by (simp add: fetchTransactionsFromContract_def finished_after_def mock_records)
qed

lemma mock_main:
  "main 131071 (mock_server (Response False 500 None)) (mock_server (page_reply [4, 5] None))
     ''2025-12-02T09:30:00.000Z'' (\<lambda>filename allData. True) =
   Some (Saved ''dexpay_contract_calls_2025.json''
     \<lparr>metadata =
        \<lparr>contractId = ''0.0.9392720'',
         contractEvmAddress = ''0x00000000000000000000000000000000008f5690'',
         period = ''2025'', startTimestamp = 1759276800, endTimestamp = 1764547200,
         fetchedAt = ''2025-12-02T09:30:00.000Z'', totalContractResults = 3,
         totalTransactions = 5\<rparr>,
      contractResults = [1, 2, 3], transactions = [1, 2, 3, 4, 5]\<rparr>)"
proof -
  have 1: "fetchContractResults 131071 (mock_server (Response False 500 None)) = Some [1, 2, 3]"
    by (rule mock_results_stopped) simp
  note 2 = mock_transactions_finished
  show ?thesis
    by (simp add: main_Some[OF 1 2] CONTRACT_ID_def CONTRACT_EVM_ADDRESS_def
        DATE_START_value DATE_END_value)
qed

section \<open>Lemmas about the wallet set\<close>

lemma fold_add_wallet:
  "fold add_wallet ws A = A \<union> (set ws - set ContractIdentity)"
  by (induction ws arbitrary: A) (auto simp: add_wallet_def)

lemma WalletSet_eq:
  "WalletSet caller recipient canonical snap =
     (set (identifiers caller canonical (contractResults snap)) \<union>
      set (identifiers recipient canonical (transactions snap))) - set ContractIdentity"
  by (auto simp: WalletSet_def fold_add_wallet)

lemma demo_wallets:
  "set [''0.0.1001'', ''0.0.1002'', ''0.0.1003''] =
       {w. (w \<in> set (identifiers demo_field id (contractResults demo_snapshot)) \<or>
            w \<in> set (identifiers demo_field id (transactions demo_snapshot))) \<and>
           w \<notin> set ContractIdentity}"
  by (auto simp: identifiers_def demo_snapshot_def demo_field_def List.map_filter_def
      ContractIdentity_def CONTRACT_ID_def CONTRACT_EVM_ADDRESS_def)

section \<open>The two collectors are one algorithm\<close>

text \<open>
  C10. The inbound and the outbound collector implement the same pagination algorithm,
  parameterised only by the initial query URL and by the name of the items field
  (\<open>results\<close> or \<open>transactions\<close>). From any loop state, the outbound loop on a
  network with the items field renamed does what the inbound loop does on the network
  itself; and for every sequence of responses \<open>rs\<close> (the \<open>k\<close>-th request receives
  \<open>rs k\<close>, whatever URL it asks for), the outbound collector on the renamed sequence
  and the inbound collector on the sequence return equal record sequences, or both run
  forever.
\<close>

theorem collectors_same_algorithm:
  fixes net :: "'r network" and rs :: "nat \<Rightarrow> 'r reply"
  shows "fetchTransactionsFromContract_loop maxArgs (renamed net) st = fetchContractResults_loop maxArgs net st
       \<and> fetchTransactionsFromContract maxArgs (\<lambda>k u. rename_reply (rs k)) =
         fetchContractResults maxArgs (\<lambda>k u. rs k)"
proof
  show "fetchTransactionsFromContract_loop maxArgs (renamed net) st = fetchContractResults_loop maxArgs net st"
    by (rule loop_renamed)
  have "same_progress (fetchTransactionsFromContract_init :: 'r loop_state)
          fetchContractResults_init"
    by (simp add: same_progress_def fetchTransactionsFromContract_init_def
        fetchContractResults_init_def url_nonempty)
  then have "map_option allResults
       (fetchContractResults_loop maxArgs (\<lambda>k u. rs k) fetchTransactionsFromContract_init) =
     map_option allResults (fetchContractResults_loop maxArgs (\<lambda>k u. rs k) fetchContractResults_init)"
    by (intro loop_same_progress) auto
  moreover have "(\<lambda>k u. rename_reply (rs k)) = renamed (\<lambda>k u. rs k)"
    by (simp add: renamed_def)
  ultimately show "fetchTransactionsFromContract maxArgs (\<lambda>k u. rename_reply (rs k)) =
      fetchContractResults maxArgs (\<lambda>k u. rs k)"
    by (simp add: fetchTransactionsFromContract_def fetchContractResults_def loop_renamed)
qed

section \<open>A well-behaved API\<close>

text \<open>
  C1, amended. When every request returns an HTTP success with a non-empty items array,
  every page but the last carries a next link at whose absolute URL the next page is
  served, the last page (of any size) carries no next link, and no page is longer than
  the engine accepts as the arguments of one call, the collector returns exactly the
  concatenation of all pages in their order: as many records as the pages hold, none
  missing and none twice. This holds for both collectors.
\<close>

theorem well_behaved_pages_all_collected:
  "(serves_linked data_results net 0 fetchContractResults_url ps \<and>
    succeeds data_results (net (Suc (length ps)) (url_after fetchContractResults_url ps))
      page None \<and>
    pushable maxArgs ps \<and> length page \<le> maxArgs \<longrightarrow>
      fetchContractResults_loop maxArgs net fetchContractResults_init =
        Some (finished_after fetchContractResults_url ps page) \<and>
      fetchContractResults maxArgs net = Some (concat (map fst ps) @ page) \<and>
      map_option length (fetchContractResults maxArgs net) =
        Some (sum_list (map (length \<circ> fst) ps) + length page)) \<and>
   (serves_linked data_transactions net 0 fetchTransactionsFromContract_url ps \<and>
    succeeds data_transactions
      (net (Suc (length ps)) (url_after fetchTransactionsFromContract_url ps)) page None \<and>
    pushable maxArgs ps \<and> length page \<le> maxArgs \<longrightarrow>
      fetchTransactionsFromContract_loop maxArgs net fetchTransactionsFromContract_init =
        Some (finished_after fetchTransactionsFromContract_url ps page) \<and>
      fetchTransactionsFromContract maxArgs net = Some (concat (map fst ps) @ page) \<and>
      map_option length (fetchTransactionsFromContract maxArgs net) =
        Some (sum_list (map (length \<circ> fst) ps) + length page))"
proof (intro conjI impI)
  assume "serves_linked data_results net 0 fetchContractResults_url ps \<and>
    succeeds data_results (net (Suc (length ps)) (url_after fetchContractResults_url ps))
      page None \<and>
    pushable maxArgs ps \<and> length page \<le> maxArgs"
  then show l: "fetchContractResults_loop maxArgs net fetchContractResults_init =
        Some (finished_after fetchContractResults_url ps page)"
    by (intro results_finished) simp_all
  show r: "fetchContractResults maxArgs net = Some (concat (map fst ps) @ page)"
    by (simp add: fetchContractResults_def l finished_after_def)
  show "map_option length (fetchContractResults maxArgs net) =
        Some (sum_list (map (length \<circ> fst) ps) + length page)"
    by (simp add: r length_concat o_def)
next
  assume "serves_linked data_transactions net 0 fetchTransactionsFromContract_url ps \<and>
    succeeds data_transactions
      (net (Suc (length ps)) (url_after fetchTransactionsFromContract_url ps)) page None \<and>
    pushable maxArgs ps \<and> length page \<le> maxArgs"
  then show l: "fetchTransactionsFromContract_loop maxArgs net
        fetchTransactionsFromContract_init =
        Some (finished_after fetchTransactionsFromContract_url ps page)"
    by (intro transactions_finished) simp_all
  show r: "fetchTransactionsFromContract maxArgs net = Some (concat (map fst ps) @ page)"
    by (simp add: fetchTransactionsFromContract_def l finished_after_def)
  show "map_option length (fetchTransactionsFromContract maxArgs net) =
        Some (sum_list (map (length \<circ> fst) ps) + length page)"
    by (simp add: r length_concat o_def)
qed

theorem well_behaved_pages_all_collected_witness:
  "serves_linked data_results (mock_server (page_reply [4, 5] None)) 0
     fetchContractResults_url mock_pages \<and>
   succeeds data_results (mock_server (page_reply [4, 5] None) (Suc (length mock_pages))
     (url_after fetchContractResults_url mock_pages)) [4, 5] None \<and>
   pushable 131071 mock_pages \<and> length [4, 5 :: nat] \<le> 131071 \<and>
   fetchContractResults 131071 (mock_server (page_reply [4, 5] None)) = Some [1, 2, 3, 4, 5] \<and>
   serves_linked data_transactions (mock_server (page_reply [4, 5] None)) 0
     fetchTransactionsFromContract_url mock_pages \<and>
   succeeds data_transactions (mock_server (page_reply [4, 5] None) (Suc (length mock_pages))
     (url_after fetchTransactionsFromContract_url mock_pages)) [4, 5] None \<and>
   fetchTransactionsFromContract 131071 (mock_server (page_reply [4, 5] None)) =
     Some [1, 2, 3, 4, 5]"
proof -
  let ?net = "mock_server (page_reply [4, 5] None)"
  have r: "serves_linked data_results ?net 0 fetchContractResults_url mock_pages"
    "succeeds data_results (?net (Suc (length mock_pages))
       (url_after fetchContractResults_url mock_pages)) [4, 5] None"
    by (simp_all add: mock_results_linked mock_final mock_last)
  have t: "serves_linked data_transactions ?net 0 fetchTransactionsFromContract_url mock_pages"
    "succeeds data_transactions (?net (Suc (length mock_pages))
       (url_after fetchTransactionsFromContract_url mock_pages)) [4, 5] None"
    by (simp_all add: mock_transactions_linked mock_final mock_last)
  have p: "pushable 131071 mock_pages" "length [4, 5 :: nat] \<le> 131071"
    by (simp_all add: mock_pushable)
  note thm1 = well_behaved_pages_all_collected [where net = ?net and ps = mock_pages
      and page = "[4, 5]" and maxArgs = 131071]
  from r p thm1 have 1: "fetchContractResults 131071 ?net = Some [1, 2, 3, 4, 5]"
    by (simp add: mock_records)
  from t p thm1 have 2: "fetchTransactionsFromContract 131071 ?net = Some [1, 2, 3, 4, 5]"
    by (simp add: mock_records)
  show ?thesis using r t p 1 2 by simp
qed

text \<open>
  C1 as stated, without the bound on the length of the pages, fails. A network that
  serves one page of 131072 records without a next link answers the one request with
  an HTTP success, a non-empty array and the end of the feed; on an engine that accepts
  131071 arguments in a call the spread call throws, the loop is left through its
  \<open>catch\<close> block, and the collector returns no record at all instead of the page.
\<close>

theorem well_behaved_pages_all_collected_counterexample:
  "serves_linked data_results (at_once long_page) 0 fetchContractResults_url
     ([] :: (nat list \<times> string) list) \<and>
   succeeds data_results
     (at_once long_page (Suc (length ([] :: (nat list \<times> string) list)))
        (url_after fetchContractResults_url ([] :: (nat list \<times> string) list)))
     long_page None \<and>
   fetchContractResults 131071 (at_once long_page) = Some [] \<and>
   fetchContractResults 131071 (at_once long_page) \<noteq>
     Some (concat (map fst ([] :: (nat list \<times> string) list)) @ long_page)"
proof -
  have "succeeds data_results (at_once long_page (Suc 0) fetchContractResults_url)
      long_page None"
    by (rule at_once_long)
  moreover have "[] \<noteq> long_page" using long_page_nonempty by (rule not_sym)
  ultimately show ?thesis by (simp add: at_once_long_results)
qed

section \<open>A failed page\<close>

text \<open>
  C2, amended. When the request for page \<open>k\<close> fails (\<open>fetch\<close> throws, the status
  is not a success, or the body does not parse) after the pages \<open>1..k-1\<close> were
  served, each linked to the next and none longer than the engine accepts as the
  arguments of one call, the collector stops at page \<open>k\<close>: the failed request is its
  last event and \<open>pageCount\<close> is \<open>k\<close>. It returns exactly the records of the
  pages \<open>1..k-1\<close>, as a value: the collector has no way to raise, every exception
  of its loop body being caught inside the loop. This holds for both collectors.
\<close>

theorem failed_page_returns_pages_before:
  "(serves_linked data_results net 0 fetchContractResults_url ps \<and>
    fails (net (Suc (length ps)) (url_after fetchContractResults_url ps)) \<and>
    pushable maxArgs ps \<longrightarrow>
      fetchContractResults_loop maxArgs net fetchContractResults_init =
        Some (stopped_after fetchContractResults_url ps) \<and>
      fetchContractResults maxArgs net = Some (concat (map fst ps))) \<and>
   (serves_linked data_transactions net 0 fetchTransactionsFromContract_url ps \<and>
    fails (net (Suc (length ps)) (url_after fetchTransactionsFromContract_url ps)) \<and>
    pushable maxArgs ps \<longrightarrow>
      fetchTransactionsFromContract_loop maxArgs net fetchTransactionsFromContract_init =
        Some (stopped_after fetchTransactionsFromContract_url ps) \<and>
      fetchTransactionsFromContract maxArgs net = Some (concat (map fst ps)))"
proof (intro conjI impI)
  assume a: "serves_linked data_results net 0 fetchContractResults_url ps \<and>
    fails (net (Suc (length ps)) (url_after fetchContractResults_url ps)) \<and>
    pushable maxArgs ps"
  then show l: "fetchContractResults_loop maxArgs net fetchContractResults_init =
        Some (stopped_after fetchContractResults_url ps)"
    by (intro results_stopped) simp_all
  show "fetchContractResults maxArgs net = Some (concat (map fst ps))"
    by (simp add: fetchContractResults_def l stopped_after_def)
next
  assume a: "serves_linked data_transactions net 0 fetchTransactionsFromContract_url ps \<and>
    fails (net (Suc (length ps)) (url_after fetchTransactionsFromContract_url ps)) \<and>
    pushable maxArgs ps"
  then show l: "fetchTransactionsFromContract_loop maxArgs net
        fetchTransactionsFromContract_init =
        Some (stopped_after fetchTransactionsFromContract_url ps)"
    by (intro transactions_stopped) simp_all
  show "fetchTransactionsFromContract maxArgs net = Some (concat (map fst ps))"
    by (simp add: fetchTransactionsFromContract_def l stopped_after_def)
qed

theorem failed_page_returns_pages_before_witness:
  "serves_linked data_results (mock_server (Response False 500 None)) 0
     fetchContractResults_url mock_pages \<and>
   fails (mock_server (Response False 500 None) (Suc (length mock_pages))
     (url_after fetchContractResults_url mock_pages)) \<and>
   pushable 131071 mock_pages \<and>
   fetchContractResults 131071 (mock_server (Response False 500 None)) = Some [1, 2, 3] \<and>
   serves_linked data_transactions (mock_server Throws) 0
     fetchTransactionsFromContract_url mock_pages \<and>
   fails (mock_server Throws (Suc (length mock_pages))
     (url_after fetchTransactionsFromContract_url mock_pages)) \<and>
   fetchTransactionsFromContract 131071 (mock_server Throws) = Some [1, 2, 3]"
proof -
  have r: "serves_linked data_results (mock_server (Response False 500 None)) 0
       fetchContractResults_url mock_pages"
    "fails (mock_server (Response False 500 None) (Suc (length mock_pages))
       (url_after fetchContractResults_url mock_pages))"
    by (simp_all add: mock_results_linked mock_final)
  have t: "serves_linked data_transactions (mock_server Throws) 0
       fetchTransactionsFromContract_url mock_pages"
    "fails (mock_server Throws (Suc (length mock_pages))
       (url_after fetchTransactionsFromContract_url mock_pages))"
    by (simp_all add: mock_transactions_linked mock_final)
  have p: "pushable 131071 mock_pages" by (simp add: mock_pushable)
  from r p failed_page_returns_pages_before [where net = "mock_server (Response False 500 None)"
      and ps = mock_pages and maxArgs = 131071]
  have "fetchContractResults 131071 (mock_server (Response False 500 None)) = Some [1, 2, 3]"
    by (simp add: mock_records)
  moreover from t p failed_page_returns_pages_before [where net = "mock_server Throws"
      and ps = mock_pages and maxArgs = 131071]
  have "fetchTransactionsFromContract 131071 (mock_server Throws) = Some [1, 2, 3]"
    by (simp add: mock_records)
  ultimately show ?thesis using r t p by simp
qed

text \<open>
  C2 as stated, without the bound on the length of the pages, fails. A network serves
  a first page of 131072 records with a next link and answers the second request with
  status 500. On an engine that accepts 131071 arguments in a call the collector does
  not stop at page 2 with the records of page 1: the spread call throws on page 1, the
  loop is left there, and no record is returned.
\<close>

theorem failed_page_returns_pages_before_counterexample:
  "serves_linked data_results (long_server (Response False 500 None)) 0
     fetchContractResults_url [(long_page, ''/api/v1/page2'')] \<and>
   fails (long_server (Response False 500 None)
     (Suc (length [(long_page, ''/api/v1/page2'')]))
     (url_after fetchContractResults_url [(long_page, ''/api/v1/page2'')])) \<and>
   fetchContractResults 131071 (long_server (Response False 500 None)) = Some [] \<and>
   fetchContractResults 131071 (long_server (Response False 500 None)) \<noteq>
     Some (concat (map fst [(long_page, ''/api/v1/page2'')]))"
proof -
  have "serves_linked data_results (long_server (Response False 500 None)) 0
     fetchContractResults_url [(long_page, ''/api/v1/page2'')]"
    by (rule long_server_linked)
  moreover have "fails (long_server (Response False 500 None)
     (Suc (length [(long_page, ''/api/v1/page2'')]))
     (url_after fetchContractResults_url [(long_page, ''/api/v1/page2'')]))"
    by (simp add: long_server_second)
  moreover have "[] \<noteq> long_page" using long_page_nonempty by (rule not_sym)
  ultimately show ?thesis by (simp only: long_server_results) simp
qed

section \<open>An empty page\<close>

text \<open>
  C3, amended. When a successful response carries an empty or absent items array, after
  pages that were served each linked to the next and none longer than the engine
  accepts as the arguments of one call, the collector terminates without issuing a
  further request (the request that got the empty page is its last event) and returns
  all the records of the pages before. In particular an empty first page gives the
  empty result, as a value and not as an error. This holds for both collectors.
\<close>

theorem empty_page_ends_collection:
  "(serves_linked data_results net 0 fetchContractResults_url ps \<and>
    empty_page data_results (net (Suc (length ps)) (url_after fetchContractResults_url ps)) \<and>
    pushable maxArgs ps \<longrightarrow>
      fetchContractResults_loop maxArgs net fetchContractResults_init =
        Some (stopped_after fetchContractResults_url ps) \<and>
      fetchContractResults maxArgs net = Some (concat (map fst ps))) \<and>
   (serves_linked data_transactions net 0 fetchTransactionsFromContract_url ps \<and>
    empty_page data_transactions
      (net (Suc (length ps)) (url_after fetchTransactionsFromContract_url ps)) \<and>
    pushable maxArgs ps \<longrightarrow>
      fetchTransactionsFromContract_loop maxArgs net fetchTransactionsFromContract_init =
        Some (stopped_after fetchTransactionsFromContract_url ps) \<and>
      fetchTransactionsFromContract maxArgs net = Some (concat (map fst ps))) \<and>
   (empty_page data_results (net (Suc 0) fetchContractResults_url) \<longrightarrow>
      fetchContractResults maxArgs net = Some []) \<and>
   (empty_page data_transactions (net (Suc 0) fetchTransactionsFromContract_url) \<longrightarrow>
      fetchTransactionsFromContract maxArgs net = Some [])"
proof (intro conjI impI)
  assume "serves_linked data_results net 0 fetchContractResults_url ps \<and>
    empty_page data_results (net (Suc (length ps)) (url_after fetchContractResults_url ps)) \<and>
    pushable maxArgs ps"
  then show l: "fetchContractResults_loop maxArgs net fetchContractResults_init =
        Some (stopped_after fetchContractResults_url ps)"
    by (intro results_stopped) simp_all
  show "fetchContractResults maxArgs net = Some (concat (map fst ps))"
    by (simp add: fetchContractResults_def l stopped_after_def)
next
  assume "serves_linked data_transactions net 0 fetchTransactionsFromContract_url ps \<and>
    empty_page data_transactions
      (net (Suc (length ps)) (url_after fetchTransactionsFromContract_url ps)) \<and>
    pushable maxArgs ps"
  then show l: "fetchTransactionsFromContract_loop maxArgs net
        fetchTransactionsFromContract_init =
        Some (stopped_after fetchTransactionsFromContract_url ps)"
    by (intro transactions_stopped) simp_all
  show "fetchTransactionsFromContract maxArgs net = Some (concat (map fst ps))"
    by (simp add: fetchTransactionsFromContract_def l stopped_after_def)
next
  assume "empty_page data_results (net (Suc 0) fetchContractResults_url)"
  then have "fetchContractResults_loop maxArgs net fetchContractResults_init =
        Some (stopped_after fetchContractResults_url [])"
    by (intro results_stopped) (simp_all add: pushable_def)
  then show "fetchContractResults maxArgs net = Some []"
    by (simp add: fetchContractResults_def stopped_after_def)
next
  assume "empty_page data_transactions (net (Suc 0) fetchTransactionsFromContract_url)"
  then have "fetchTransactionsFromContract_loop maxArgs net
        fetchTransactionsFromContract_init =
        Some (stopped_after fetchTransactionsFromContract_url [])"
    by (intro transactions_stopped) (simp_all add: pushable_def)
  then show "fetchTransactionsFromContract maxArgs net = Some []"
    by (simp add: fetchTransactionsFromContract_def stopped_after_def)
qed

theorem empty_page_ends_collection_witness:
  "serves_linked data_results (mock_server (page_reply [] None)) 0
     fetchContractResults_url mock_pages \<and>
   empty_page data_results (mock_server (page_reply [] None) (Suc (length mock_pages))
     (url_after fetchContractResults_url mock_pages)) \<and>
   pushable 131071 mock_pages \<and>
   fetchContractResults 131071 (mock_server (page_reply [] None)) = Some [1, 2, 3] \<and>
   map_option events (fetchContractResults_loop 131071 (mock_server (page_reply [] None))
                  fetchContractResults_init) =
     Some [Request fetchContractResults_url, Sleep 200,
      Request ''https://mainnet-public.mirrornode.hedera.com/api/v1/page2'', Sleep 200,
      Request ''https://mirror.example/page3''] \<and>
   serves_linked data_transactions (mock_server (page_reply [] None)) 0
     fetchTransactionsFromContract_url mock_pages \<and>
   empty_page data_transactions (mock_server (page_reply [] None) (Suc (length mock_pages))
     (url_after fetchTransactionsFromContract_url mock_pages)) \<and>
   fetchTransactionsFromContract 131071 (mock_server (page_reply [] None)) = Some [1, 2, 3] \<and>
   empty_page data_results (at_once ([] :: nat list) (Suc 0) fetchContractResults_url) \<and>
   fetchContractResults 131071 (at_once ([] :: nat list)) = Some [] \<and>
   empty_page data_transactions
     (at_once ([] :: nat list) (Suc 0) fetchTransactionsFromContract_url) \<and>
   fetchTransactionsFromContract 131071 (at_once ([] :: nat list)) = Some []"
proof -
  let ?net = "mock_server (page_reply [] None)"
  have r: "serves_linked data_results ?net 0 fetchContractResults_url mock_pages"
    "empty_page data_results (?net (Suc (length mock_pages))
       (url_after fetchContractResults_url mock_pages))"
    by (simp_all add: mock_results_linked mock_final mock_empty)
  have t: "serves_linked data_transactions ?net 0 fetchTransactionsFromContract_url mock_pages"
    "empty_page data_transactions (?net (Suc (length mock_pages))
       (url_after fetchTransactionsFromContract_url mock_pages))"
    by (simp_all add: mock_transactions_linked mock_final mock_empty)
  have p: "pushable 131071 mock_pages" by (simp add: mock_pushable)
  note thm1 = empty_page_ends_collection [where net = ?net and ps = mock_pages
      and maxArgs = 131071]
  note thm2 = empty_page_ends_collection [where net = "at_once ([] :: nat list)"
      and ps = "[]" and maxArgs = 131071]
  from r p thm1 have 1: "fetchContractResults 131071 ?net = Some [1, 2, 3]"
    by (simp add: mock_records)
  from r p thm1
  have 2: "map_option events (fetchContractResults_loop 131071 ?net fetchContractResults_init) =
     Some [Request fetchContractResults_url, Sleep 200,
      Request ''https://mainnet-public.mirrornode.hedera.com/api/v1/page2'', Sleep 200,
      Request ''https://mirror.example/page3'']"
    by (simp add: stopped_after_def mock_pages_def absolute_def)
  from t p thm1 have 3: "fetchTransactionsFromContract 131071 ?net = Some [1, 2, 3]"
    by (simp add: mock_records)
  from thm2 have 4: "fetchContractResults 131071 (at_once ([] :: nat list)) = Some []"
    by (simp add: at_once_empty)
  from thm2 have 5: "fetchTransactionsFromContract 131071 (at_once ([] :: nat list)) = Some []"
    by (simp add: at_once_empty)
  show ?thesis using r t p 1 2 3 4 5 by (simp add: at_once_empty)
qed

text \<open>
  C3 as stated, without the bound on the length of the pages, fails. A network serves
  a first page of 131072 records with a next link and answers the second request with
  a success whose items array is empty. On an engine that accepts 131071 arguments in
  a call the collector does not return the records of the page before the empty one:
  the spread call throws on page 1, the loop is left there, and no record is returned.
\<close>

theorem empty_page_ends_collection_counterexample:
  "serves_linked data_results (long_server (page_reply [] None)) 0
     fetchContractResults_url [(long_page, ''/api/v1/page2'')] \<and>
   empty_page data_results (long_server (page_reply [] None)
     (Suc (length [(long_page, ''/api/v1/page2'')]))
     (url_after fetchContractResults_url [(long_page, ''/api/v1/page2'')])) \<and>
   fetchContractResults 131071 (long_server (page_reply [] None)) = Some [] \<and>
   fetchContractResults 131071 (long_server (page_reply [] None)) \<noteq>
     Some (concat (map fst [(long_page, ''/api/v1/page2'')]))"
proof -
  have "serves_linked data_results (long_server (page_reply [] None)) 0
     fetchContractResults_url [(long_page, ''/api/v1/page2'')]"
    by (rule long_server_linked)
  moreover have "empty_page data_results (long_server (page_reply [] None)
     (Suc (length [(long_page, ''/api/v1/page2'')]))
     (url_after fetchContractResults_url [(long_page, ''/api/v1/page2'')]))"
    by (simp add: long_server_second mock_empty)
  moreover have "[] \<noteq> long_page" using long_page_nonempty by (rule not_sym)
  ultimately show ?thesis by (simp only: long_server_results) simp
qed

section \<open>Counting unique wallets\<close>

text \<open>
  C4. For every snapshot, with any numbers of inbound and outbound records: when
  exactly \<open>K\<close> distinct identifiers other than the contract's own appear as
  counterparties in the two streams (\<open>ks\<close> lists them without repetition), however
  often each is repeated, the unique-wallet count of the Analyzer is \<open>K\<close>. The
  identifiers are compared in their canonical form.
\<close>

theorem unique_wallet_count_exact:
  assumes "distinct ks"
    and "set ks =
       {w. (w \<in> set (identifiers caller canonical (contractResults snap)) \<or>
            w \<in> set (identifiers recipient canonical (transactions snap))) \<and>
           w \<notin> set ContractIdentity}"
  shows "uniqueWallets caller recipient canonical snap = length ks"
proof -
  have "WalletSet caller recipient canonical snap = set ks"
    unfolding WalletSet_eq assms(2) by auto
  with assms(1) show ?thesis by (simp add: uniqueWallets_def distinct_card)
qed

theorem unique_wallet_count_exact_witness:
  "distinct [''0.0.1001'', ''0.0.1002'', ''0.0.1003''] \<and>
   set [''0.0.1001'', ''0.0.1002'', ''0.0.1003''] =
       {w. (w \<in> set (identifiers demo_field id (contractResults demo_snapshot)) \<or>
            w \<in> set (identifiers demo_field id (transactions demo_snapshot))) \<and>
           w \<notin> set ContractIdentity} \<and>
   uniqueWallets demo_field demo_field id demo_snapshot = 3"
proof -
  have d: "distinct [''0.0.1001'', ''0.0.1002'', ''0.0.1003'']" by simp
  from unique_wallet_count_exact [OF d demo_wallets] d demo_wallets show ?thesis by simp
qed

section \<open>The contract is excluded\<close>

text \<open>
  C5. For every snapshot, neither the contract's native id nor its EVM address form is
  a member of the wallet set the Analyzer produces, whatever the records hold.
\<close>

theorem contract_never_in_wallet_set:
  "CONTRACT_ID \<notin> WalletSet caller recipient canonical snap \<and>
   CONTRACT_EVM_ADDRESS \<notin> WalletSet caller recipient canonical snap"
  by (simp add: WalletSet_eq ContractIdentity_def)

section \<open>The snapshot and its metadata\<close>

text \<open>
  C6. Whatever the two collectors fetched, the snapshot that \<open>main\<close> writes holds
  the two fetched sequences, and its metadata holds their lengths as
  \<open>totalContractResults\<close> and \<open>totalTransactions\<close>, the contract's native id and
  EVM address, the configured start and end in epoch seconds, and the time of
  collection.
\<close>

theorem snapshot_metadata_consistent:
  assumes "main maxArgs net_in net_out now writeFileSync = Some (Saved filename allData)"
  shows "fetchContractResults maxArgs net_in = Some (contractResults allData) \<and>
     fetchTransactionsFromContract maxArgs net_out = Some (transactions allData) \<and>
     totalContractResults (metadata allData) = length (contractResults allData) \<and>
     totalTransactions (metadata allData) = length (transactions allData) \<and>
     contractId (metadata allData) = CONTRACT_ID \<and>
     contractEvmAddress (metadata allData) = CONTRACT_EVM_ADDRESS \<and>
     startTimestamp (metadata allData) = DATE_START \<and>
     endTimestamp (metadata allData) = DATE_END \<and>
     fetchedAt (metadata allData) = now"
  using main_Saved[OF assms] by auto

theorem snapshot_metadata_consistent_witness:
  "main 131071 (mock_server (Response False 500 None)) (mock_server (page_reply [4, 5] None))
     ''2025-12-02T09:30:00.000Z'' (\<lambda>filename allData. True) =
   Some (Saved ''dexpay_contract_calls_2025.json''
     \<lparr>metadata =
        \<lparr>contractId = ''0.0.9392720'',
         contractEvmAddress = ''0x00000000000000000000000000000000008f5690'',
         period = ''2025'', startTimestamp = 1759276800, endTimestamp = 1764547200,
         fetchedAt = ''2025-12-02T09:30:00.000Z'', totalContractResults = 3,
         totalTransactions = 5\<rparr>,
      contractResults = [1, 2, 3], transactions = [1, 2, 3, 4, 5]\<rparr>) \<and>
   fetchContractResults 131071 (mock_server (Response False 500 None)) = Some [1, 2, 3] \<and>
   fetchTransactionsFromContract 131071 (mock_server (page_reply [4, 5] None)) = Some [1, 2, 3, 4, 5] \<and>
   CONTRACT_ID = ''0.0.9392720'' \<and>
   CONTRACT_EVM_ADDRESS = ''0x00000000000000000000000000000000008f5690''"
  using snapshot_metadata_consistent [OF mock_main] mock_main by simp

section \<open>The window bounds\<close>

text \<open>
  C7. The initial query URL of either stream carries the configured bounds unmodified,
  as \<open>timestamp=gte:\<close> followed by the start and \<open>timestamp=lt:\<close> followed by
  the end (a half-open window), with \<open>order=asc\<close>; that URL is what the first
  request of the loop asks for, whatever the network answers; and the same start and
  end are recorded in the metadata of the snapshot that \<open>main\<close> writes.
\<close>

theorem window_bounds_passed_through:
  "query_params fetchContractResults_url =
     [''timestamp=gte:'' @ decimal DATE_START, ''timestamp=lt:'' @ decimal DATE_END,
      ''limit=100'', ''order=asc''] \<and>
   query_params fetchTransactionsFromContract_url =
     [''account.id='' @ CONTRACT_ID, ''timestamp=gte:'' @ decimal DATE_START,
      ''timestamp=lt:'' @ decimal DATE_END, ''limit=100'', ''order=asc''] \<and>
   take 1 (events (state_of (fetchContractResults_passes maxArgs (Suc n) net fetchContractResults_init)))
     = [Request fetchContractResults_url] \<and>
   take 1 (events (state_of
       (fetchTransactionsFromContract_passes maxArgs (Suc n) net fetchTransactionsFromContract_init)))
     = [Request fetchTransactionsFromContract_url] \<and>
   (main maxArgs net_in net_out now writeFileSync = Some (Saved filename allData) \<longrightarrow>
      startTimestamp (metadata allData) = DATE_START \<and>
      endTimestamp (metadata allData) = DATE_END)"
proof (intro conjI impI)
  show "query_params fetchContractResults_url =
     [''timestamp=gte:'' @ decimal DATE_START, ''timestamp=lt:'' @ decimal DATE_END,
      ''limit=100'', ''order=asc'']"
    by (simp add: query_params_results decimal_DATE_START decimal_DATE_END)
  show "query_params fetchTransactionsFromContract_url =
     [''account.id='' @ CONTRACT_ID, ''timestamp=gte:'' @ decimal DATE_START,
      ''timestamp=lt:'' @ decimal DATE_END, ''limit=100'', ''order=asc'']"
    by (simp add: query_params_transactions decimal_DATE_START decimal_DATE_END CONTRACT_ID_def)
  show "take 1 (events (state_of
      (fetchContractResults_passes maxArgs (Suc n) net fetchContractResults_init)))
     = [Request fetchContractResults_url]"
    by (rule results_first_request) (simp_all add: fetchContractResults_init_def url_nonempty)
  show "take 1 (events (state_of
       (fetchTransactionsFromContract_passes maxArgs (Suc n) net fetchTransactionsFromContract_init)))
     = [Request fetchTransactionsFromContract_url]"
    unfolding transactions_passes_renamed
    by (rule results_first_request)
       (simp_all add: fetchTransactionsFromContract_init_def url_nonempty)
next
  assume "main maxArgs net_in net_out now writeFileSync = Some (Saved filename allData)"
  from main_Saved[OF this]
  show "startTimestamp (metadata allData) = DATE_START"
    "endTimestamp (metadata allData) = DATE_END"
    by auto
qed

theorem window_bounds_passed_through_witness:
  "main 131071 (mock_server (Response False 500 None)) (mock_server (page_reply [4, 5] None))
     ''2025-12-02T09:30:00.000Z'' (\<lambda>filename allData. True) =
   Some (Saved ''dexpay_contract_calls_2025.json''
     \<lparr>metadata =
        \<lparr>contractId = ''0.0.9392720'',
         contractEvmAddress = ''0x00000000000000000000000000000000008f5690'',
         period = ''2025'', startTimestamp = 1759276800, endTimestamp = 1764547200,
         fetchedAt = ''2025-12-02T09:30:00.000Z'', totalContractResults = 3,
         totalTransactions = 5\<rparr>,
      contractResults = [1, 2, 3], transactions = [1, 2, 3, 4, 5]\<rparr>) \<and>
   DATE_START = 1759276800 \<and> DATE_END = 1764547200 \<and>
   query_params fetchContractResults_url =
     [''timestamp=gte:1759276800'', ''timestamp=lt:1764547200'', ''limit=100'', ''order=asc'']"
proof -
  let ?S = "\<lparr>metadata =
        \<lparr>contractId = ''0.0.9392720'',
         contractEvmAddress = ''0x00000000000000000000000000000000008f5690'',
         period = ''2025'', startTimestamp = 1759276800, endTimestamp = 1764547200,
         fetchedAt = ''2025-12-02T09:30:00.000Z'', totalContractResults = 3,
         totalTransactions = 5\<rparr>,
      contractResults = [1, 2, 3], transactions = [1, 2, 3, 4, 5 :: nat]\<rparr>"
  from mock_main
    window_bounds_passed_through [where maxArgs = 131071
      and net_in = "mock_server (Response False 500 None)"
      and net_out = "mock_server (page_reply [4, 5] None)"
      and now = "''2025-12-02T09:30:00.000Z''" and writeFileSync = "\<lambda>filename allData. True"
      and filename = "''dexpay_contract_calls_2025.json''" and allData = ?S]
  have "startTimestamp (metadata ?S) = DATE_START \<and> endTimestamp (metadata ?S) = DATE_END \<and>
    query_params fetchContractResults_url =
     [''timestamp=gte:'' @ decimal DATE_START, ''timestamp=lt:'' @ decimal DATE_END,
      ''limit=100'', ''order=asc'']"
    by blast
  then have "DATE_START = 1759276800 \<and> DATE_END = 1764547200 \<and>
    query_params fetchContractResults_url =
     [''timestamp=gte:'' @ decimal 1759276800, ''timestamp=lt:'' @ decimal 1764547200,
      ''limit=100'', ''order=asc'']"
    by simp
  with mock_main show ?thesis by (simp add: decimal.simps digit_def)
qed

section \<open>The delay between requests\<close>

text \<open>
  C8. Between every two consecutive page requests of a collector there is the fixed
  delay of 200 ms: a collector never issues a follow-up request without having paused
  after the request before. This holds for the events of every finite prefix of a run
  of either loop, whatever the network answers and also when the run never ends, and
  so for the events of every run that ends. (After a failed request, an empty page or
  a page too long to be pushed the loop is left without a pause, and without a further
  request.)
\<close>

theorem requests_are_delayed:
  "delayed (events (state_of (fetchContractResults_passes maxArgs n net fetchContractResults_init))) \<and>
   delayed (events (state_of
     (fetchTransactionsFromContract_passes maxArgs n net fetchTransactionsFromContract_init))) \<and>
   (fetchContractResults_loop maxArgs net fetchContractResults_init = Some st \<longrightarrow> delayed (events st)) \<and>
   (fetchTransactionsFromContract_loop maxArgs net fetchTransactionsFromContract_init = Some st
      \<longrightarrow> delayed (events st))"
proof (intro conjI impI)
  show "delayed (events (state_of (fetchContractResults_passes maxArgs n net fetchContractResults_init)))"
    by (rule results_passes_delayed) (simp_all add: fetchContractResults_init_def)
  show "delayed (events (state_of
     (fetchTransactionsFromContract_passes maxArgs n net fetchTransactionsFromContract_init)))"
    unfolding transactions_passes_renamed
    by (rule results_passes_delayed) (simp_all add: fetchTransactionsFromContract_init_def)
next
  assume "fetchContractResults_loop maxArgs net fetchContractResults_init = Some st"
  then obtain m where "fetchContractResults_passes maxArgs m net fetchContractResults_init = Break st"
    using results_passes_loop by blast
  with results_passes_delayed[where st = fetchContractResults_init and n = m and net = net
      and maxArgs = maxArgs]
  show "delayed (events st)" by (simp add: fetchContractResults_init_def)
next
  assume "fetchTransactionsFromContract_loop maxArgs net fetchTransactionsFromContract_init = Some st"
  then obtain m where
    "fetchTransactionsFromContract_passes maxArgs m net fetchTransactionsFromContract_init = Break st"
    using transactions_passes_loop by blast
  with results_passes_delayed[where st = fetchTransactionsFromContract_init and n = m
      and net = "renamed net" and maxArgs = maxArgs]
  show "delayed (events st)"
    by (simp add: fetchTransactionsFromContract_init_def transactions_passes_renamed)
qed

theorem requests_are_delayed_witness:
  "fetchContractResults_loop 131071 (mock_server (page_reply [4, 5] None)) fetchContractResults_init =
     Some (finished_after fetchContractResults_url mock_pages [4, 5]) \<and>
   delayed (events (finished_after fetchContractResults_url mock_pages [4, 5] :: nat loop_state)) \<and>
   fetchTransactionsFromContract_loop 131071 (mock_server Throws) fetchTransactionsFromContract_init =
     Some (stopped_after fetchTransactionsFromContract_url mock_pages) \<and>
   delayed (events (stopped_after fetchTransactionsFromContract_url mock_pages :: nat loop_state))"
proof -
  have 1: "fetchContractResults_loop 131071 (mock_server (page_reply [4, 5] None))
      fetchContractResults_init = Some (finished_after fetchContractResults_url mock_pages [4, 5])"
    by (intro results_finished)
       (simp_all add: mock_results_linked mock_final mock_last mock_pushable)
  have 2: "fetchTransactionsFromContract_loop 131071 (mock_server Throws)
      fetchTransactionsFromContract_init =
      Some (stopped_after fetchTransactionsFromContract_url mock_pages)"
    by (intro transactions_stopped)
       (simp_all add: mock_transactions_linked mock_final mock_pushable)
  from 1 requests_are_delayed [where n = 0 and maxArgs = 131071
      and net = "mock_server (page_reply [4, 5] None)"
      and st = "finished_after fetchContractResults_url mock_pages [4, 5]"]
  have 3: "delayed (events (finished_after fetchContractResults_url mock_pages [4, 5]
      :: nat loop_state))" by blast
  from 2 requests_are_delayed [where n = 0 and maxArgs = 131071 and net = "mock_server Throws"
      and st = "stopped_after fetchTransactionsFromContract_url mock_pages"]
  have 4: "delayed (events (stopped_after fetchTransactionsFromContract_url mock_pages
      :: nat loop_state))" by blast
  from 1 2 3 4 show ?thesis by blast
qed

section \<open>An aborted run\<close>

text \<open>
  C9, amended. When one or both pagination loops abort on a failed request, after
  pages none of which is longer than the engine accepts as the arguments of one call,
  and the other loop, if it does not abort, returns, \<open>main\<close> calls \<open>writeFileSync\<close>
  with the snapshot that holds, for an aborted loop, exactly the records of the pages
  before the failed request, and for the other loop what it returned. If the write
  succeeds, the process ends with that file saved; if the write throws, it ends through
  \<open>process.exit(1)\<close> and nothing is saved. The metadata of the snapshot consists of
  the two identifiers, the period, the two bounds, the time of collection and the two
  counts: nothing in it tells an aborted run from a complete one, and every run,
  aborted or complete, whose loops return the same records ends in the same way.
\<close>

theorem aborted_run_still_writes_snapshot:
  "(serves_linked data_results net_in 0 fetchContractResults_url ps \<and> pushable maxArgs ps \<and>
    fails (net_in (Suc (length ps)) (url_after fetchContractResults_url ps)) \<and>
    serves_linked data_transactions net_out 0 fetchTransactionsFromContract_url qs \<and>
    pushable maxArgs qs \<and>
    fails (net_out (Suc (length qs)) (url_after fetchTransactionsFromContract_url qs)) \<longrightarrow>
      main maxArgs net_in net_out now writeFileSync =
        Some (if writeFileSync ''dexpay_contract_calls_2025.json''
                   (snapshot_artifact now (concat (map fst ps)) (concat (map fst qs)))
              then Saved ''dexpay_contract_calls_2025.json''
                   (snapshot_artifact now (concat (map fst ps)) (concat (map fst qs)))
              else Exit1)) \<and>
   (serves_linked data_results net_in 0 fetchContractResults_url ps \<and> pushable maxArgs ps \<and>
    fails (net_in (Suc (length ps)) (url_after fetchContractResults_url ps)) \<and>
    fetchTransactionsFromContract maxArgs net_out = Some tx \<longrightarrow>
      main maxArgs net_in net_out now writeFileSync =
        Some (if writeFileSync ''dexpay_contract_calls_2025.json''
                   (snapshot_artifact now (concat (map fst ps)) tx)
              then Saved ''dexpay_contract_calls_2025.json''
                   (snapshot_artifact now (concat (map fst ps)) tx)
              else Exit1)) \<and>
   (fetchContractResults maxArgs net_in = Some cr \<and>
    serves_linked data_transactions net_out 0 fetchTransactionsFromContract_url qs \<and>
    pushable maxArgs qs \<and>
    fails (net_out (Suc (length qs)) (url_after fetchTransactionsFromContract_url qs)) \<longrightarrow>
      main maxArgs net_in net_out now writeFileSync =
        Some (if writeFileSync ''dexpay_contract_calls_2025.json''
                   (snapshot_artifact now cr (concat (map fst qs)))
              then Saved ''dexpay_contract_calls_2025.json''
                   (snapshot_artifact now cr (concat (map fst qs)))
              else Exit1)) \<and>
   (fetchContractResults maxArgs net_in' = Some cr \<and>
    fetchTransactionsFromContract maxArgs net_out' = Some tx \<longrightarrow>
      main maxArgs net_in' net_out' now writeFileSync =
        Some (if writeFileSync ''dexpay_contract_calls_2025.json''
                   (snapshot_artifact now cr tx)
              then Saved ''dexpay_contract_calls_2025.json'' (snapshot_artifact now cr tx)
              else Exit1)) \<and>
   metadata (snapshot_artifact now cr tx) =
     \<lparr>contractId = CONTRACT_ID, contractEvmAddress = CONTRACT_EVM_ADDRESS,
      period = ''2025'', startTimestamp = DATE_START, endTimestamp = DATE_END,
      fetchedAt = now, totalContractResults = length cr, totalTransactions = length tx\<rparr> \<and>
   contractResults (snapshot_artifact now cr tx) = cr \<and>
   transactions (snapshot_artifact now cr tx) = tx"
proof -
  have run: "main maxArgs n_in n_out now writeFileSync =
        Some (if writeFileSync ''dexpay_contract_calls_2025.json''
                   (snapshot_artifact now c t)
              then Saved ''dexpay_contract_calls_2025.json'' (snapshot_artifact now c t)
              else Exit1)"
    if "fetchContractResults maxArgs n_in = Some c"
      and "fetchTransactionsFromContract maxArgs n_out = Some t"
    for n_in n_out :: "'a network" and c t
    using main_Some[OF that, of now writeFileSync]
    by (simp add: snapshot_artifact_def Let_def)
  have ab_in: "fetchContractResults maxArgs net_in = Some (concat (map fst ps))"
    if "serves_linked data_results net_in 0 fetchContractResults_url ps"
      and "pushable maxArgs ps"
      and "fails (net_in (Suc (length ps)) (url_after fetchContractResults_url ps))"
  proof -
    have "fetchContractResults_loop maxArgs net_in fetchContractResults_init =
        Some (stopped_after fetchContractResults_url ps)"
      using that by (intro results_stopped) simp_all
    then show ?thesis by (simp add: fetchContractResults_def stopped_after_def)
  qed
  have ab_out: "fetchTransactionsFromContract maxArgs net_out = Some (concat (map fst qs))"
    if "serves_linked data_transactions net_out 0 fetchTransactionsFromContract_url qs"
      and "pushable maxArgs qs"
      and "fails (net_out (Suc (length qs)) (url_after fetchTransactionsFromContract_url qs))"
  proof -
    have "fetchTransactionsFromContract_loop maxArgs net_out
        fetchTransactionsFromContract_init =
        Some (stopped_after fetchTransactionsFromContract_url qs)"
      using that by (intro transactions_stopped) simp_all
    then show ?thesis by (simp add: fetchTransactionsFromContract_def stopped_after_def)
  qed
  show ?thesis
  proof (intro conjI impI)
    assume "serves_linked data_results net_in 0 fetchContractResults_url ps \<and>
      pushable maxArgs ps \<and>
      fails (net_in (Suc (length ps)) (url_after fetchContractResults_url ps)) \<and>
      serves_linked data_transactions net_out 0 fetchTransactionsFromContract_url qs \<and>
      pushable maxArgs qs \<and>
      fails (net_out (Suc (length qs)) (url_after fetchTransactionsFromContract_url qs))"
    then have "fetchContractResults maxArgs net_in = Some (concat (map fst ps))"
      "fetchTransactionsFromContract maxArgs net_out = Some (concat (map fst qs))"
      by (simp_all add: ab_in ab_out)
    then show "main maxArgs net_in net_out now writeFileSync =
        Some (if writeFileSync ''dexpay_contract_calls_2025.json''
                   (snapshot_artifact now (concat (map fst ps)) (concat (map fst qs)))
              then Saved ''dexpay_contract_calls_2025.json''
                   (snapshot_artifact now (concat (map fst ps)) (concat (map fst qs)))
              else Exit1)"
      by (rule run)
  next
    assume "serves_linked data_results net_in 0 fetchContractResults_url ps \<and>
      pushable maxArgs ps \<and>
      fails (net_in (Suc (length ps)) (url_after fetchContractResults_url ps)) \<and>
      fetchTransactionsFromContract maxArgs net_out = Some tx"
    then have "fetchContractResults maxArgs net_in = Some (concat (map fst ps))"
      "fetchTransactionsFromContract maxArgs net_out = Some tx"
      by (simp_all add: ab_in)
    then show "main maxArgs net_in net_out now writeFileSync =
        Some (if writeFileSync ''dexpay_contract_calls_2025.json''
                   (snapshot_artifact now (concat (map fst ps)) tx)
              then Saved ''dexpay_contract_calls_2025.json''
                   (snapshot_artifact now (concat (map fst ps)) tx)
              else Exit1)"
      by (rule run)
  next
    assume "fetchContractResults maxArgs net_in = Some cr \<and>
      serves_linked data_transactions net_out 0 fetchTransactionsFromContract_url qs \<and>
      pushable maxArgs qs \<and>
      fails (net_out (Suc (length qs)) (url_after fetchTransactionsFromContract_url qs))"
    then have "fetchContractResults maxArgs net_in = Some cr"
      "fetchTransactionsFromContract maxArgs net_out = Some (concat (map fst qs))"
      by (simp_all add: ab_out)
    then show "main maxArgs net_in net_out now writeFileSync =
        Some (if writeFileSync ''dexpay_contract_calls_2025.json''
                   (snapshot_artifact now cr (concat (map fst qs)))
              then Saved ''dexpay_contract_calls_2025.json''
                   (snapshot_artifact now cr (concat (map fst qs)))
              else Exit1)"
      by (rule run)
  next
    assume "fetchContractResults maxArgs net_in' = Some cr \<and>
      fetchTransactionsFromContract maxArgs net_out' = Some tx"
    then have "fetchContractResults maxArgs net_in' = Some cr"
      "fetchTransactionsFromContract maxArgs net_out' = Some tx"
      by simp_all
    then show "main maxArgs net_in' net_out' now writeFileSync =
        Some (if writeFileSync ''dexpay_contract_calls_2025.json''
                   (snapshot_artifact now cr tx)
              then Saved ''dexpay_contract_calls_2025.json'' (snapshot_artifact now cr tx)
              else Exit1)"
      by (rule run)
  qed (simp_all add: snapshot_artifact_def)
qed

theorem aborted_run_still_writes_snapshot_witness:
  "serves_linked data_results (mock_server (Response False 500 None)) 0
     fetchContractResults_url mock_pages \<and>
   fails (mock_server (Response False 500 None) (Suc (length mock_pages))
     (url_after fetchContractResults_url mock_pages)) \<and>
   serves_linked data_transactions (mock_server Throws) 0
     fetchTransactionsFromContract_url mock_pages \<and>
   fails (mock_server Throws (Suc (length mock_pages))
     (url_after fetchTransactionsFromContract_url mock_pages)) \<and>
   pushable 131071 mock_pages \<and>
   fetchContractResults 131071 (mock_server (Response False 500 None)) = Some [1, 2, 3] \<and>
   fetchTransactionsFromContract 131071 (mock_server Throws) = Some [1, 2, 3] \<and>
   fetchContractResults 131071 (mock_server (page_reply [] None)) = Some [1, 2, 3] \<and>
   fetchTransactionsFromContract 131071 (mock_server (page_reply [] None)) = Some [1, 2, 3] \<and>
   main 131071 (mock_server (Response False 500 None)) (mock_server Throws)
     ''2025-12-02T09:30:00.000Z'' (\<lambda>filename allData. True) =
   Some (Saved ''dexpay_contract_calls_2025.json''
     \<lparr>metadata =
        \<lparr>contractId = CONTRACT_ID, contractEvmAddress = CONTRACT_EVM_ADDRESS,
         period = ''2025'', startTimestamp = DATE_START, endTimestamp = DATE_END,
         fetchedAt = ''2025-12-02T09:30:00.000Z'', totalContractResults = 3,
         totalTransactions = 3\<rparr>,
      contractResults = [1, 2, 3], transactions = [1, 2, 3]\<rparr>) \<and>
   main 131071 (mock_server (page_reply [] None)) (mock_server (page_reply [] None))
     ''2025-12-02T09:30:00.000Z'' (\<lambda>filename allData. True) =
   main 131071 (mock_server (Response False 500 None)) (mock_server Throws)
     ''2025-12-02T09:30:00.000Z'' (\<lambda>filename allData. True)"
proof -
  have a: "serves_linked data_results (mock_server (Response False 500 None)) 0
       fetchContractResults_url mock_pages"
    "fails (mock_server (Response False 500 None) (Suc (length mock_pages))
       (url_after fetchContractResults_url mock_pages))"
    "serves_linked data_transactions (mock_server Throws) 0
       fetchTransactionsFromContract_url mock_pages"
    "fails (mock_server Throws (Suc (length mock_pages))
       (url_after fetchTransactionsFromContract_url mock_pages))"
    "pushable 131071 mock_pages"
    by (simp_all add: mock_results_linked mock_transactions_linked mock_final mock_pushable)
  have f: "fetchContractResults 131071 (mock_server (Response False 500 None)) = Some [1, 2, 3]"
    "fetchTransactionsFromContract 131071 (mock_server Throws) = Some [1, 2, 3]"
    "fetchContractResults 131071 (mock_server (page_reply [] None)) = Some [1, 2, 3]"
    "fetchTransactionsFromContract 131071 (mock_server (page_reply [] None)) = Some [1, 2, 3]"
    by (simp_all add: mock_results_stopped mock_transactions_stopped mock_empty)
  note t = aborted_run_still_writes_snapshot [where maxArgs = 131071
      and net_in = "mock_server (Response False 500 None)" and net_out = "mock_server Throws"
      and ps = mock_pages and qs = mock_pages and cr = "[1, 2, 3]" and tx = "[1, 2, 3]"
      and net_in' = "mock_server (page_reply [] None)"
      and net_out' = "mock_server (page_reply [] None)"
      and now = "''2025-12-02T09:30:00.000Z''" and writeFileSync = "\<lambda>filename allData. True"]
  from t a f
  have "main 131071 (mock_server (Response False 500 None)) (mock_server Throws)
     ''2025-12-02T09:30:00.000Z'' (\<lambda>filename allData. True) =
     Some (Saved ''dexpay_contract_calls_2025.json''
       (snapshot_artifact ''2025-12-02T09:30:00.000Z'' [1, 2, 3] [1, 2, 3]))"
    "main 131071 (mock_server (page_reply [] None)) (mock_server (page_reply [] None))
     ''2025-12-02T09:30:00.000Z'' (\<lambda>filename allData. True) =
     Some (Saved ''dexpay_contract_calls_2025.json''
       (snapshot_artifact ''2025-12-02T09:30:00.000Z'' [1, 2, 3] [1, 2, 3]))"
    by (simp_all add: mock_records)
  with a f show ?thesis by (simp add: snapshot_artifact_def)
qed

text \<open>
  C9 as stated fails: an aborted run does not always end with a snapshot written and
  without a fatal error. In this run both loops abort on a failed third request, each
  having collected three records, and the write of the file throws: the process ends
  through \<open>process.exit(1)\<close> and no snapshot is saved.
\<close>

theorem aborted_run_still_writes_snapshot_counterexample:
  "serves_linked data_results (mock_server (Response False 500 None)) 0
     fetchContractResults_url mock_pages \<and>
   fails (mock_server (Response False 500 None) (Suc (length mock_pages))
     (url_after fetchContractResults_url mock_pages)) \<and>
   serves_linked data_transactions (mock_server Throws) 0
     fetchTransactionsFromContract_url mock_pages \<and>
   fails (mock_server Throws (Suc (length mock_pages))
     (url_after fetchTransactionsFromContract_url mock_pages)) \<and>
   fetchContractResults 131071 (mock_server (Response False 500 None)) = Some [1, 2, 3] \<and>
   fetchTransactionsFromContract 131071 (mock_server Throws) = Some [1, 2, 3] \<and>
   main 131071 (mock_server (Response False 500 None)) (mock_server Throws)
     ''2025-12-02T09:30:00.000Z'' (\<lambda>filename allData. False) = Some Exit1"
proof -
  have f: "fetchContractResults 131071 (mock_server (Response False 500 None)) = Some [1, 2, 3]"
    "fetchTransactionsFromContract 131071 (mock_server Throws) = Some [1, 2, 3]"
    by (simp_all add: mock_results_stopped mock_transactions_stopped)
  have "main 131071 (mock_server (Response False 500 None)) (mock_server Throws)
     ''2025-12-02T09:30:00.000Z'' (\<lambda>filename allData. False) = Some Exit1"
    by (simp add: main_Some[OF f])
  with f show ?thesis
    by (simp add: mock_results_linked mock_transactions_linked mock_final)
qed

end
